theory Spec2Isabelle
  imports Main
begin

section \<open>Strings and numbers of the host language\<close>

text \<open>
  A string is a list of code units. The model keeps the code units below 256 (one
  \<^typ>\<open>char\<close> each, read as U+0000 .. U+00FF).
\<close>

definition apostrophe :: char where
  "apostrophe = CHR 0x27"

definition isDigit :: "char \<Rightarrow> bool" where
  "isDigit c = (48 \<le> (of_char c :: int) \<and> (of_char c :: int) \<le> 57)"

definition digitValue :: "char \<Rightarrow> int" where
  "digitValue c = of_char c - 48"

definition digitChar :: "int \<Rightarrow> char" where
  "digitChar d = char_of (48 + d)"

text \<open>
  The white space that \<open>parseInt\<close> skips (WhiteSpace and LineTerminator of the language
  definition), as far as it lies below 256: TAB, LF, VT, FF, CR, SP, NBSP.
\<close>

definition isWhiteSpace :: "char \<Rightarrow> bool" where
  "isWhiteSpace c = ((of_char c :: int) \<in> {9, 10, 11, 12, 13, 32, 160})"

text \<open>The decimal digits of an integer that is not negative, most significant first.\<close>

function decimal :: "int \<Rightarrow> string" where
  "decimal n = (if n < 10 then [digitChar n] else decimal (n div 10) @ [digitChar (n mod 10)])"
  by pat_completeness auto
termination
  by (relation "measure nat") auto

text \<open>
  The decimal text of an integer: digits, a minus sign in front of a negative one. This is
  what \<open>Number.prototype.toString()\<close>, \<open>String(n)\<close> and a template literal give for an integer
  of magnitude up to \<open>2^53\<close>.
\<close>

definition toString :: "int \<Rightarrow> string" where
  "toString i = (if i < 0 then CHR ''-'' # decimal (- i) else decimal i)"

text \<open>\<open>padStart(n, c)\<close> and \<open>padEnd(n, c)\<close> with a one-character filler: a string that is
  already \<open>n\<close> long or longer is returned as it is.\<close>

definition padStart :: "nat \<Rightarrow> char \<Rightarrow> string \<Rightarrow> string" where
  "padStart n c s = replicate (n - length s) c @ s"

definition padEnd :: "nat \<Rightarrow> char \<Rightarrow> string \<Rightarrow> string" where
  "padEnd n c s = s @ replicate (n - length s) c"

text \<open>\<open>s.split(c)\<close> with a one-character separator: the pieces between the separators, so
  one piece more than there are separators; the empty string gives one empty piece.\<close>

fun split :: "char \<Rightarrow> string \<Rightarrow> string list" where
  "split c [] = [[]]"
| "split c (x # xs) =
     (if x = c then [] # split c xs
      else (case split c xs of p # ps \<Rightarrow> (x # p) # ps | [] \<Rightarrow> [[x]]))"

text \<open>Reading an array at an index: \<open>undefined\<close> (here \<open>None\<close>) beyond its end.\<close>

definition at :: "'a list \<Rightarrow> nat \<Rightarrow> 'a option" where
  "at xs i = (if i < length xs then Some (xs ! i) else None)"

subsection \<open>Double-precision numbers with integer values\<close>

text \<open>
  The numbers of the host language are IEEE 754 doubles. Every value the time helpers compute
  from an integer argument or from decimal digits is an integer, so the model keeps a double
  as the integer it is equal to. An integer is a double when it fits in 53 significant bits;
  every integer of magnitude up to \<open>2^53\<close> is one. The result of an arithmetic operation is the
  exact result rounded to the nearest double, with ties going to the even mantissa. The model
  applies the operations below to magnitudes far below \<open>2^1024\<close> only, so no operation
  overflows to infinity.
\<close>

definition maxExact :: int where
  "maxExact = 9007199254740992"

text \<open>The number of bits of a positive integer \<open>n\<close>: \<open>2^(bitLength n - 1) \<le> n < 2^bitLength n\<close>.\<close>

function bitLength :: "int \<Rightarrow> nat" where
  "bitLength n = (if n \<le> 0 then 0 else Suc (bitLength (n div 2)))"
  by pat_completeness auto
termination
  by (relation "measure nat") auto

text \<open>The integer nearest to \<open>p / d\<close>, for \<open>p \<ge> 0\<close> and \<open>d > 0\<close>; of two equally near ones,
  the even one.\<close>

definition roundHalfEven :: "int \<Rightarrow> int \<Rightarrow> int" where
  "roundHalfEven p d =
     (let q = p div d; r = p mod d
      in if 2 * r < d then q else if d < 2 * r then q + 1 else if even q then q else q + 1)"

text \<open>The double nearest to an integer: the integer itself up to \<open>2^53\<close>; beyond, the
  integer rounded to 53 significant bits.\<close>

definition toDouble :: "int \<Rightarrow> int" where
  "toDouble n =
     (if \<bar>n\<bar> \<le> maxExact then n
      else let ulp = 2 ^ (bitLength \<bar>n\<bar> - 53) in sgn n * (roundHalfEven \<bar>n\<bar> ulp * ulp))"

text \<open>
  \<open>Math.floor(a / b)\<close> for integer doubles \<open>a\<close> and \<open>0 < b < 2^53\<close>: the quotient is rounded to
  the nearest double first, then the floor is taken. With \<open>2^e \<le> |a| / b < 2^(e + 1)\<close> the
  doubles around the quotient are the multiples of \<open>2^(e - 52)\<close>. A quotient below 1 in
  magnitude does not round to 1, since \<open>b < 2^53\<close>.
\<close>

definition floorOfQuotient :: "int \<Rightarrow> int \<Rightarrow> int" where
  "floorOfQuotient a b =
     (if a = 0 then 0
      else if \<bar>a\<bar> < b then (if a < 0 then - 1 else 0)
      else
        let e = bitLength (\<bar>a\<bar> div b) - 1
        in if 52 \<le> e
           then sgn a * (roundHalfEven \<bar>a\<bar> (b * 2 ^ (e - 52)) * 2 ^ (e - 52))
           else (sgn a * roundHalfEven (\<bar>a\<bar> * 2 ^ (52 - e)) b) div 2 ^ (52 - e))"

text \<open>The remainder operator \<open>%\<close> on integer doubles, for a divisor other than 0: the result
  has the sign of the dividend, and it is exact.\<close>

definition js_rem :: "int \<Rightarrow> int \<Rightarrow> int" where
  "js_rem a b = (if a < 0 then - ((- a) mod \<bar>b\<bar>) else a mod \<bar>b\<bar>)"

text \<open>
  A number as the parsing helper computes it: \<open>NaN\<close>, an integer double, or a number the
  model does not follow. The last is what \<open>parseInt\<close> gives for more than 20 significant digits,
  where the language definition leaves the digits after the 20th to the implementation, and
  whatever is computed from such a number. The model has one zero: it does not tell \<open>-0\<close>
  from \<open>0\<close>.
\<close>

datatype double = NotANumber | Double int | Unmodelled

fun isNaN :: "double \<Rightarrow> bool" where
  "isNaN NotANumber = True"
| "isNaN (Double _) = False"
| "isNaN Unmodelled = False"

text \<open>The product of a number and an integer constant, and the sum of two numbers.\<close>

fun num_times :: "double \<Rightarrow> int \<Rightarrow> double" where
  "num_times NotANumber k = NotANumber"
| "num_times (Double a) k = Double (toDouble (a * k))"
| "num_times Unmodelled k = Unmodelled"

fun num_plus :: "double \<Rightarrow> double \<Rightarrow> double" where
  "num_plus (Double a) (Double b) = Double (toDouble (a + b))"
| "num_plus NotANumber _ = NotANumber"
| "num_plus _ NotANumber = NotANumber"
| "num_plus _ _ = Unmodelled"

text \<open>
  \<open>parseInt(s, 10)\<close>: leading white space is skipped, one sign is accepted, then the longest
  run of decimal digits is read; whatever follows is ignored. No digit at that place gives
  \<open>NaN\<close>. The value is the double nearest to the integer the digits denote.
\<close>

definition digitsValue :: "string \<Rightarrow> int" where
  "digitsValue ds = foldl (\<lambda>a d. 10 * a + digitValue d) 0 ds"

definition parseInt :: "string \<Rightarrow> double" where
  "parseInt s =
     (let t = dropWhile isWhiteSpace s;
          sign = (if t \<noteq> [] \<and> hd t = CHR ''-'' then - 1 else 1 :: int);
          u = (if t \<noteq> [] \<and> (hd t = CHR ''+'' \<or> hd t = CHR ''-'') then tl t else t);
          z = takeWhile isDigit u
      in if z = [] then NotANumber
         else if 20 < length (dropWhile (\<lambda>c. c = CHR ''0'') z) then Unmodelled
         else Double (sign * toDouble (digitsValue z)))"

section \<open>Time helpers\<close>

definition formatLapTime :: "string \<Rightarrow> string" where
  "formatLapTime timeString = map (\<lambda>c. if c = apostrophe then CHR '':'' else c) timeString"

text \<open>
  \<open>msToTimeString\<close> for an argument that is an integer double; an integer that is no
  double is not an argument the function can receive. The seconds and the milliseconds are
  below 60000 in magnitude. The minutes can exceed \<open>2^53\<close>; the digits that \<open>toString()\<close>
  prints for such a double are not the decimal text of the integer, and the model does not
  follow them. In both cases the model gives \<open>None\<close>.
\<close>

definition msToTimeString :: "int \<Rightarrow> string option" where
  "msToTimeString ms =
     (let minutes = floorOfQuotient ms 60000;
          seconds = floorOfQuotient (js_rem ms 60000) 1000;
          milliseconds = js_rem ms 1000
      in if toDouble ms = ms \<and> \<bar>minutes\<bar> \<le> maxExact
         then Some (toString minutes @ '':'' @ padStart 2 CHR ''0'' (toString seconds) @ ''.''
                      @ padStart 3 CHR ''0'' (toString milliseconds))
         else None)"

text \<open>
  \<open>parseTimeToMs\<close> has no \<open>throw\<close> of its own. The one place where the host language could
  raise is the method call \<open>parts[1].split('.')\<close>, a \<open>TypeError\<close> if \<open>parts[1]\<close> were
  \<open>undefined\<close>; the model keeps that branch. \<open>parseInt(undefined, 10)\<close> is \<open>NaN\<close>.
\<close>

datatype error = TypeError

definition parseTimeToMs :: "string \<Rightarrow> error + double" where
  "parseTimeToMs timeString =
     (let cleanTime = map (\<lambda>c. if c = apostrophe then CHR '':'' else c) timeString;
          parts = split CHR '':'' cleanTime
      in if length parts \<noteq> 2 then Inr (Double 0)
         else
           let minutes = (case at parts 0 of None \<Rightarrow> NotANumber | Some p0 \<Rightarrow> parseInt p0)
           in (case at parts 1 of
                 None \<Rightarrow> Inl TypeError
               | Some p1 \<Rightarrow>
                   let secondsParts = split CHR ''.'' p1;
                       seconds = (case at secondsParts 0 of None \<Rightarrow> NotANumber | Some s0 \<Rightarrow> parseInt s0);
                       milliseconds =
                         (case at secondsParts 1 of
                            None \<Rightarrow> Double 0
                          | Some s1 \<Rightarrow>
                              if s1 \<noteq> [] then parseInt (padEnd 3 CHR ''0'' s1) else Double 0)
                   in if isNaN minutes \<or> isNaN seconds \<or> isNaN milliseconds then Inr (Double 0)
                      else Inr (num_plus
                                  (num_plus (num_times (num_times minutes 60) 1000)
                                     (num_times seconds 1000))
                                  milliseconds)))"

section \<open>Category helpers\<close>

record category_ids =
  MOTOGP :: string
  MOTO2 :: string
  MOTO3 :: string
  MOTOE :: string

definition CATEGORY_IDS :: category_ids where
  "CATEGORY_IDS =
     \<lparr>MOTOGP = ''737ab122-76e1-4081-bedb-334caaa18c70'',
      MOTO2 = ''ea854a67-73a4-4a28-ac77-d67b3b2a530a'',
      MOTO3 = ''1ab203aa-e292-4842-8bed-971911357af1'',
      MOTOE = ''cf196668-f900-4116-af79-810b91828a37''\<rparr>"

text \<open>
  \<open>toUpperCase()\<close> on the code units below 256: the letters a-z and the accented
  lower-case letters U+00E0 .. U+00FE (but not the division sign U+00F7) move down by 32,
  and the sharp s U+00DF becomes the two letters SS. The upper-case forms of U+00B5 and U+00FF
  lie beyond U+00FF and cannot be written in the model, which leaves the two code units as
  they are; like their upper-case forms they are outside A-Z and 0-9.
\<close>

definition toUpperCaseChar :: "char \<Rightarrow> string" where
  "toUpperCaseChar c =
     (let n = (of_char c :: nat)
      in if 97 \<le> n \<and> n \<le> 122 then [char_of (n - 32)]
         else if n = 223 then ''SS''
         else if 224 \<le> n \<and> n \<le> 254 \<and> n \<noteq> 247 then [char_of (n - 32)]
         else [c])"

definition toUpperCase :: "string \<Rightarrow> string" where
  "toUpperCase s = concat (map toUpperCaseChar s)"

text \<open>The character class \<open>[A-Z0-9]\<close>; \<open>replace(/[^A-Z0-9]/g, '')\<close> keeps exactly its
  members.\<close>

definition isUpperAlnum :: "char \<Rightarrow> bool" where
  "isUpperAlnum c =
     (let n = (of_char c :: nat) in (65 \<le> n \<and> n \<le> 90) \<or> (48 \<le> n \<and> n \<le> 57))"

definition getCategoryId :: "string \<Rightarrow> string option" where
  "getCategoryId categoryName =
     (let normalizedName = filter isUpperAlnum (toUpperCase categoryName)
      in if normalizedName = ''MOTOGP'' then Some (MOTOGP CATEGORY_IDS)
         else if normalizedName = ''MOTO2'' then Some (MOTO2 CATEGORY_IDS)
         else if normalizedName = ''MOTO3'' then Some (MOTO3 CATEGORY_IDS)
         else if normalizedName = ''MOTOE'' then Some (MOTOE CATEGORY_IDS)
         else None)"

section \<open>The client\<close>

subsection \<open>Construction\<close>

text \<open>Every option is optional (\<open>None\<close> is \<open>undefined\<close>), and so is the options object
  itself, which defaults to the empty object.\<close>

text \<open>A number in an option or in a query parameter: \<open>NaN\<close> or an integer. The client
  stores such numbers and turns them into text; it does not compute with them.\<close>

datatype number = NaN | Num int

record ClientOptions =
  baseURL :: "string option"
  timeout :: "number option"
  userAgent :: "string option"

record MotoGPClient =
  baseURL :: string
  timeout :: number
  userAgent :: string

text \<open>\<open>a || b\<close>: \<open>b\<close> when \<open>a\<close> is falsy. Among strings and \<open>undefined\<close> the falsy values
  are \<open>undefined\<close> and the empty string; among numbers and \<open>undefined\<close> they are
  \<open>undefined\<close>, \<open>0\<close> and \<open>NaN\<close>.\<close>

definition or_string :: "string option \<Rightarrow> string \<Rightarrow> string" where
  "or_string a b = (case a of None \<Rightarrow> b | Some s \<Rightarrow> if s = [] then b else s)"

definition or_number :: "number option \<Rightarrow> number \<Rightarrow> number" where
  "or_number a b =
     (case a of None \<Rightarrow> b | Some NaN \<Rightarrow> b | Some (Num i) \<Rightarrow> if i = 0 then b else Num i)"

definition defaultBaseURL :: string where
  "defaultBaseURL = ''https://api.motogp.pulselive.com/motogp/v1/''"

definition defaultUserAgent :: string where
  "defaultUserAgent =
     ''Mozilla/5.0 (Windows NT 10.0; Win64; x64) AppleWebKit/537.36 (KHTML, like Gecko) Chrome/125.0.0.0 Safari/537.36''"

definition emptyOptions :: ClientOptions where
  "emptyOptions =
     \<lparr>ClientOptions.baseURL = None, ClientOptions.timeout = None, ClientOptions.userAgent = None\<rparr>"

definition new_MotoGPClient :: "ClientOptions option \<Rightarrow> MotoGPClient" where
  "new_MotoGPClient arg =
     (let options = (case arg of None \<Rightarrow> emptyOptions | Some opts \<Rightarrow> opts)
      in \<lparr>baseURL = or_string (ClientOptions.baseURL options) defaultBaseURL,
          timeout = or_number (ClientOptions.timeout options) (Num 10000),
          userAgent = or_string (ClientOptions.userAgent options) defaultUserAgent\<rparr>)"

subsection \<open>The request pipeline\<close>

text \<open>
  What can be thrown and caught: an instance of \<open>Error\<close> (it always has a \<open>message\<close>, its
  own or the prototype's), any other object (with or without a \<open>message\<close> property), or a
  value that is no object (\<open>undefined\<close>, \<open>null\<close>, a string, a number). Of an object the model
  keeps the \<open>message\<close> and the \<open>status\<close> properties. An \<open>APIError\<close> is an object literal
  with a message and, optionally, a status.
\<close>

datatype thrown =
    ErrorInstance string "int option"
  | OtherObject "string option" "int option"
  | NonObject

fun message_of :: "thrown \<Rightarrow> string option" where
  "message_of (ErrorInstance m _) = Some m"
| "message_of (OtherObject m _) = m"
| "message_of NonObject = None"

fun status_of :: "thrown \<Rightarrow> int option" where
  "status_of (ErrorInstance _ st) = st"
| "status_of (OtherObject _ st) = st"
| "status_of NonObject = None"

fun instanceofError :: "thrown \<Rightarrow> bool" where
  "instanceofError (ErrorInstance _ _) = True"
| "instanceofError _ = False"

definition APIError :: "string \<Rightarrow> int option \<Rightarrow> thrown" where
  "APIError m st = OtherObject (Some m) st"

text \<open>The values of a query-parameter object. The declared type admits strings, numbers and
  booleans; the code also tests for \<open>undefined\<close> and \<open>null\<close>.\<close>

datatype param_value = Undefined | Null | Str string | Number number | Boolean bool

fun String :: "param_value \<Rightarrow> string" where
  "String Undefined = ''undefined''"
| "String Null = ''null''"
| "String (Str s) = s"
| "String (Number NaN) = ''NaN''"
| "String (Number (Num i)) = toString i"
| "String (Boolean b) = (if b then ''true'' else ''false'')"

text \<open>
  A \<open>URL\<close> object: its query as the list of name-value pairs behind \<open>url.searchParams\<close>,
  and the rest of the address as one string. \<open>searchParams.set(name, value)\<close> overwrites the
  first pair of that name and deletes the others, or appends a new pair.
\<close>

record URL =
  address :: string
  searchParams :: "(string \<times> string) list"

fun searchParams_set :: "string \<Rightarrow> string \<Rightarrow> (string \<times> string) list \<Rightarrow> (string \<times> string) list" where
  "searchParams_set name v [] = [(name, v)]"
| "searchParams_set name v (p # ps) =
     (if fst p = name then (name, v) # filter (\<lambda>q. fst q \<noteq> name) ps
      else p # searchParams_set name v ps)"

text \<open>
  The platform the client runs on: the URL parser (\<open>new URL(endpoint, base)\<close>, which throws
  on an address it cannot resolve), the URL serialiser, and the HTTP transport. A call of
  \<open>request\<close> either rejects with what it throws or resolves to a response; of the response
  the model keeps the status code and what \<open>response.body.json()\<close> would give, the decoded
  document or what it throws.
\<close>

record request_options =
  http_method :: string
  headers :: "(string \<times> string) list"
  headersTimeout :: number
  bodyTimeout :: number

record 'a response =
  statusCode :: int
  body_json :: "thrown + 'a"

record 'a platform =
  new_URL :: "string \<Rightarrow> string \<Rightarrow> thrown + URL"
  url_toString :: "URL \<Rightarrow> string"
  request :: "string \<Rightarrow> request_options \<Rightarrow> thrown + 'a response"

text \<open>What a call does to the outside world, in order.\<close>

datatype event = ConsoleLog string | Request string request_options

text \<open>Lines 81 to 87: the entries of the parameter object, in the order of
  \<open>Object.entries\<close>, are written into the query unless the value is \<open>undefined\<close> or
  \<open>null\<close>. No parameter object (\<open>None\<close>) leaves the URL as it is.\<close>

definition setSearchParam :: "URL \<Rightarrow> string \<times> param_value \<Rightarrow> URL" where
  "setSearchParam url entry =
     (case entry of (key, v) \<Rightarrow>
        if v \<noteq> Undefined \<and> v \<noteq> Null
        then url\<lparr>searchParams := searchParams_set key (String v) (searchParams url)\<rparr>
        else url)"

definition appendSearchParams :: "URL \<Rightarrow> (string \<times> param_value) list option \<Rightarrow> URL" where
  "appendSearchParams url params =
     (case params of None \<Rightarrow> url | Some entries \<Rightarrow> foldl setSearchParam url entries)"

definition requestOptions :: "MotoGPClient \<Rightarrow> request_options" where
  "requestOptions this =
     \<lparr>http_method = ''GET'',
      headers = [(''User-Agent'', userAgent this), (''Accept'', ''application/json'')],
      headersTimeout = timeout this,
      bodyTimeout = timeout this\<rparr>"

text \<open>The body of the \<open>try\<close> block after the request has come back: a status other than
  200 throws an \<open>APIError\<close>, status 200 decodes the body.\<close>

definition handleResponse :: "'a response \<Rightarrow> thrown + 'a" where
  "handleResponse response =
     (if statusCode response \<noteq> 200
      then Inl (APIError
             (''HTTP '' @ toString (statusCode response) @ '': ''
                @ (if statusCode response = 404 then ''Not Found'' else ''Request Failed''))
             (Some (statusCode response)))
      else body_json response)"

text \<open>The \<open>catch\<close> block: a truthy object that has a \<open>message\<close> is thrown again as it
  is; anything else is replaced by an \<open>APIError\<close> without status.\<close>

definition catchBlock :: "thrown \<Rightarrow> thrown" where
  "catchBlock error =
     (if error \<noteq> NonObject \<and> message_of error \<noteq> None then error
      else APIError
             (case error of ErrorInstance m _ \<Rightarrow> m | _ \<Rightarrow> ''Unknown error occurred'')
             None)"

text \<open>\<open>makeRequest\<close> returns the events it caused and how its promise settles: rejected
  with a thrown value (\<open>Inl\<close>) or fulfilled with the decoded document (\<open>Inr\<close>). The URL is
  built outside the \<open>try\<close> block, so what the URL parser throws is not caught.\<close>

definition makeRequest ::
  "'a platform \<Rightarrow> MotoGPClient \<Rightarrow> string \<Rightarrow> (string \<times> param_value) list option
     \<Rightarrow> event list \<times> (thrown + 'a)" where
  "makeRequest pf this endpoint params =
     (case new_URL pf endpoint (baseURL this) of
        Inl e \<Rightarrow> ([], Inl e)
      | Inr url0 \<Rightarrow>
          let url = appendSearchParams url0 params;
              href = url_toString pf url;
              attempt =
                (case request pf href (requestOptions this) of
                   Inl e \<Rightarrow> Inl e
                 | Inr response \<Rightarrow> handleResponse response)
          in ([ConsoleLog (''Making request to: '' @ href), Request href (requestOptions this)],
              case attempt of Inl error \<Rightarrow> Inl (catchBlock error) | Inr data \<Rightarrow> Inr data))"

section \<open>Properties of the string and number primitives\<close>

declare decimal.simps [simp del]
declare bitLength.simps [simp del]

lemma split_not_Nil: "split c s \<noteq> []"
  by (induction s) (auto split: list.splits)

lemma length_split: "length (split c s) = Suc (count_list s c)"
proof (induction s)
  case Nil
  show ?case by simp
next
  case (Cons x xs)
  then show ?case using split_not_Nil [of c xs]
    by (cases "split c xs") auto
qed

lemma split_no_sep: "c \<notin> set s \<Longrightarrow> split c s = [s]"
  by (induction s) auto

lemma split_first_sep: "c \<notin> set a \<Longrightarrow> split c (a @ c # b) = a # split c b"
  by (induction a) auto

lemma split_one_sep:
  assumes "count_list s c = 1"
  shows "split c s = [takeWhile (\<lambda>x. x \<noteq> c) s, tl (dropWhile (\<lambda>x. x \<noteq> c) s)]"
  using assms
proof (induction s)
  case Nil
  then show ?case by simp
next
  case (Cons x xs)
  show ?case
  proof (cases "x = c")
    case True
    with Cons.prems have "count_list xs c = 0" by simp
    then have "c \<notin> set xs" by (simp add: count_list_0_iff)
    with True show ?thesis by (simp add: split_no_sep)
  next
    case False
    with Cons.prems have "count_list xs c = 1" by simp
    with Cons.IH False show ?thesis by simp
  qed
qed


lemma of_char_digitChar: "0 \<le> d \<Longrightarrow> d < 10 \<Longrightarrow> (of_char (digitChar d) :: int) = 48 + d"
  by (simp add: digitChar_def)

lemma isDigit_digitChar: "0 \<le> d \<Longrightarrow> d < 10 \<Longrightarrow> isDigit (digitChar d)"
  by (simp add: isDigit_def of_char_digitChar)

lemma digitValue_digitChar: "0 \<le> d \<Longrightarrow> d < 10 \<Longrightarrow> digitValue (digitChar d) = d"
  by (simp add: digitValue_def of_char_digitChar)

lemma digitChar_0: "digitChar 0 = CHR ''0''"
  by code_simp

lemma decimal_small: "n < 10 \<Longrightarrow> decimal n = [digitChar n]"
  by (subst decimal.simps) simp

lemma decimal_big: "\<not> n < 10 \<Longrightarrow> decimal n = decimal (n div 10) @ [digitChar (n mod 10)]"
  by (subst decimal.simps) simp

lemma decimal_not_Nil: "decimal n \<noteq> []"
  by (cases "n < 10") (simp_all add: decimal_small decimal_big)

lemma isDigit_decimal: "0 \<le> n \<Longrightarrow> list_all isDigit (decimal n)"
proof (induction n rule: decimal.induct)
  case (1 n)
  show ?case
  proof (cases "n < 10")
    case True
    with "1.prems" show ?thesis by (simp add: decimal_small isDigit_digitChar)
  next
    case False
    then have "0 \<le> n div 10" by simp
    with "1.IH" False have "list_all isDigit (decimal (n div 10))" by simp
    with False show ?thesis by (simp add: decimal_big isDigit_digitChar)
  qed
qed

lemma digitsValue_snoc: "digitsValue (ds @ [d]) = 10 * digitsValue ds + digitValue d"
  by (simp add: digitsValue_def)

lemma digitsValue_decimal: "0 \<le> n \<Longrightarrow> digitsValue (decimal n) = n"
proof (induction n rule: decimal.induct)
  case (1 n)
  show ?case
  proof (cases "n < 10")
    case True
    with "1.prems" show ?thesis
      by (simp add: decimal_small digitsValue_def digitValue_digitChar)
  next
    case False
    then have "0 \<le> n div 10" by simp
    with "1.IH" False have "digitsValue (decimal (n div 10)) = n div 10" by simp
    with False show ?thesis
      by (simp add: decimal_big digitsValue_snoc digitValue_digitChar)
  qed
qed

lemma digitsValue_zeros: "digitsValue (replicate k CHR ''0'' @ ds) = digitsValue ds"
proof (induction k)
  case 0
  show ?case by simp
next
  case (Suc k)
  have "digitsValue (CHR ''0'' # replicate k CHR ''0'' @ ds) = digitsValue (replicate k CHR ''0'' @ ds)"
    by (simp add: digitsValue_def digitValue_def)
  with Suc show ?case by simp
qed

lemma digitValue_nonneg: "isDigit c \<Longrightarrow> 0 \<le> digitValue c"
  by (simp add: isDigit_def digitValue_def)

lemma digitsValue_nonneg: "list_all isDigit ds \<Longrightarrow> 0 \<le> digitsValue ds"
proof (induction ds rule: rev_induct)
  case Nil
  show ?case by (simp add: digitsValue_def)
next
  case (snoc d ds)
  then have "0 \<le> digitsValue ds" and "0 \<le> digitValue d"
    by (simp_all add: digitValue_nonneg)
  then show ?case by (simp add: digitsValue_snoc)
qed

lemma length_decimal: "0 < k \<Longrightarrow> 0 \<le> n \<Longrightarrow> n < 10 ^ k \<Longrightarrow> length (decimal n) \<le> k"
proof (induction k arbitrary: n)
  case 0
  then show ?case by simp
next
  case (Suc k)
  show ?case
  proof (cases "n < 10")
    case True
    then show ?thesis by (simp add: decimal_small)
  next
    case False
    with Suc.prems have k: "0 < k" by (cases k) auto
    from Suc.prems have "n div 10 < 10 ^ k" by (simp add: div_less_iff_less_mult mult.commute)
    moreover from False have "0 \<le> n div 10" by simp
    ultimately have "length (decimal (n div 10)) \<le> k" using Suc.IH k by simp
    with False show ?thesis by (simp add: decimal_big)
  qed
qed

lemma hd_decimal: "0 < n \<Longrightarrow> hd (decimal n) \<noteq> CHR ''0''"
proof (induction n rule: decimal.induct)
  case (1 n)
  show ?case
  proof (cases "n < 10")
    case True
    have "(of_char (digitChar n) :: int) \<noteq> of_char CHR ''0''"
      using True "1.prems" by (simp add: of_char_digitChar)
    then have "digitChar n \<noteq> CHR ''0''" by auto
    with True show ?thesis by (simp add: decimal_small)
  next
    case False
    then have "0 < n div 10" by simp
    with "1.IH" False have "hd (decimal (n div 10)) \<noteq> CHR ''0''" by simp
    with False show ?thesis
      by (simp add: decimal_big decimal_not_Nil)
  qed
qed

lemma isDigit_not_space: "isDigit c \<Longrightarrow> \<not> isWhiteSpace c"
  by (auto simp: isDigit_def isWhiteSpace_def)

lemma isDigit_not_sign: "isDigit c \<Longrightarrow> c \<noteq> CHR ''+'' \<and> c \<noteq> CHR ''-''"
  by (auto simp: isDigit_def)

lemma parseInt_digits:
  assumes "ds \<noteq> []" and "list_all isDigit ds" and "length ds \<le> 20"
  shows "parseInt ds = Double (toDouble (digitsValue ds))"
proof -
  from assms have c: "isDigit (hd ds)" by (cases ds) auto
  have t: "dropWhile isWhiteSpace ds = ds"
    using assms(1) isDigit_not_space [OF c] by (cases ds) auto
  have u: "(if ds \<noteq> [] \<and> (hd ds = CHR ''+'' \<or> hd ds = CHR ''-'') then tl ds else ds) = ds"
    using isDigit_not_sign [OF c] by simp
  have sg: "(if ds \<noteq> [] \<and> hd ds = CHR ''-'' then - 1 else 1 :: int) = 1"
    using isDigit_not_sign [OF c] by simp
  have z: "takeWhile isDigit ds = ds"
    using assms(2) by (simp add: list_all_iff)
  have "length (dropWhile (\<lambda>c. c = CHR ''0'') ds) \<le> length ds"
    by (rule length_dropWhile_le)
  with assms(3) have sig: "\<not> 20 < length (dropWhile (\<lambda>c. c = CHR ''0'') ds)"
    by simp
  show ?thesis
    unfolding parseInt_def Let_def t u sg z using assms(1) sig by simp
qed

lemma parseInt_NaN_iff:
  "parseInt s = NotANumber \<longleftrightarrow>
     (let t = dropWhile isWhiteSpace s;
          u = (if t \<noteq> [] \<and> (hd t = CHR ''+'' \<or> hd t = CHR ''-'') then tl t else t)
      in u = [] \<or> \<not> isDigit (hd u))"
  by (auto simp: parseInt_def Let_def takeWhile_eq_Nil_iff)

subsection \<open>Where double arithmetic is exact\<close>

lemma toDouble_exact: "\<bar>n\<bar> \<le> maxExact \<Longrightarrow> toDouble n = n"
  by (simp add: toDouble_def)

lemma bitLength_le: "0 \<le> n \<Longrightarrow> n < 2 ^ k \<Longrightarrow> bitLength n \<le> k"
proof (induction k arbitrary: n)
  case 0
  then have "n = 0" by simp
  then show ?case by (subst bitLength.simps) simp
next
  case (Suc k)
  show ?case
  proof (cases "n \<le> 0")
    case True
    then show ?thesis by (subst bitLength.simps) simp
  next
    case False
    from Suc.prems have "n div 2 < 2 ^ k" by (simp add: div_less_iff_less_mult mult.commute)
    moreover from False have "0 \<le> n div 2" by simp
    ultimately have "bitLength (n div 2) \<le> k" by (rule Suc.IH [rotated])
    with False show ?thesis by (subst bitLength.simps) simp
  qed
qed

lemma bitLength_pos: "0 < n \<Longrightarrow> 0 < bitLength n"
  by (subst bitLength.simps) simp

lemma roundHalfEven_cases:
  "roundHalfEven p d = p div d \<or> (roundHalfEven p d = p div d + 1 \<and> d \<le> 2 * (p mod d))"
  by (auto simp: roundHalfEven_def Let_def)

text \<open>
  Rounding a scaled quotient never reaches the next multiple of the scale when the scale
  \<open>d\<close> is more than half the divisor: the quotient is then at least \<open>1 / b > 1 / (2 * d)\<close>,
  more than half a unit in the last place, below the next integer.
\<close>

lemma roundHalfEven_div:
  assumes a: "0 \<le> a" and b: "0 < b" and d: "0 < d" and bd: "b < 2 * d"
  shows "roundHalfEven (a * d) b div d = a div b"
proof -
  let ?N = "a * d"
  have floor_part: "(?N div b) div d = a div b"
  proof -
    have "(?N div b) div d = ?N div (b * d)"
      using b d by (simp add: zdiv_zmult2_eq)
    also have "\<dots> = a div b" using d by simp
    finally show ?thesis .
  qed
  from roundHalfEven_cases [of ?N b] show ?thesis
  proof
    assume "roundHalfEven ?N b = ?N div b"
    with floor_part show ?thesis by simp
  next
    assume up: "roundHalfEven ?N b = ?N div b + 1 \<and> b \<le> 2 * (?N mod b)"
    let ?q = "a div b"
    let ?Q = "?N div b"
    have Q_lo: "?q * d \<le> ?Q" and Q_hi: "?Q < (?q + 1) * d"
    proof -
      have "?Q = (?Q div d) * d + ?Q mod d" by simp
      moreover have "0 \<le> ?Q mod d" "?Q mod d < d" using d by simp_all
      ultimately show "?q * d \<le> ?Q" "?Q < (?q + 1) * d"
        using floor_part by (simp_all add: algebra_simps)
    qed
    have "?Q + 1 < (?q + 1) * d"
    proof (rule ccontr)
      assume "\<not> ?Q + 1 < (?q + 1) * d"
      with Q_hi have Qmax: "?Q = (?q + 1) * d - 1" by simp
      have N: "?N = ?Q * b + ?N mod b" by simp
      have "a = ?q * b + a mod b" by simp
      moreover have "a mod b \<le> b - 1" using b by simp
      ultimately have "a \<le> ?q * b + (b - 1)" by linarith
      then have "a * d \<le> (?q * b + (b - 1)) * d" using d by (simp add: mult_right_mono)
      then have Nle: "?N \<le> (?q + 1) * d * b - d" by (simp add: algebra_simps)
      from N Qmax have "?N = ((?q + 1) * d - 1) * b + ?N mod b" by simp
      then have "?N = (?q + 1) * d * b - b + ?N mod b" by (simp add: algebra_simps)
      with Nle have "?N mod b \<le> b - d" by linarith
      moreover from up have "b \<le> 2 * (?N mod b)" by simp
      moreover have "x \<le> b - d \<Longrightarrow> b \<le> 2 * x \<Longrightarrow> 2 * d \<le> b" for x :: int
        by linarith
      ultimately have "2 * d \<le> b" by blast
      with bd show False by linarith
    qed
    then have "(?Q + 1) div d = ?q"
      using Q_lo by (intro int_div_pos_eq [where r = "?Q + 1 - ?q * d"]) (simp_all add: algebra_simps)
    with up show ?thesis by simp
  qed
qed

lemma floorOfQuotient_exact:
  assumes a: "0 \<le> a" and b: "0 < b" and q: "a div b < 2 ^ k" and k: "k \<le> 52"
    and bk: "b < 2 ^ (54 - k)"
  shows "floorOfQuotient a b = a div b"
proof (cases "a < b")
  case True
  with a show ?thesis by (simp add: floorOfQuotient_def)
next
  case False
  with b have qpos: "0 < a div b" by (simp add: pos_imp_zdiv_pos_iff)
  let ?e = "bitLength (a div b) - 1"
  have "bitLength (a div b) \<le> k" using qpos q by (intro bitLength_le) simp_all
  moreover have "0 < bitLength (a div b)" using qpos by (rule bitLength_pos)
  ultimately have e: "?e < k" by simp
  with k have e52: "\<not> 52 \<le> ?e" by simp
  from e k have "54 - k \<le> 53 - ?e" by simp
  then have pw: "(2::int) ^ (54 - k) \<le> 2 ^ (53 - ?e)" by (intro power_increasing) simp_all
  from bk pw have "b < 2 ^ (53 - ?e)" by (rule less_le_trans)
  moreover from e52 have "53 - ?e = Suc (52 - ?e)" by simp
  ultimately have bd: "b < 2 * 2 ^ (52 - ?e)" by (simp only: power_Suc)
  have "roundHalfEven (a * 2 ^ (52 - ?e)) b div 2 ^ (52 - ?e) = a div b"
    by (rule roundHalfEven_div [OF a b _ bd]) simp
  moreover from False a b have "a \<noteq> 0" "\<bar>a\<bar> = a" "sgn a = 1" by simp_all
  ultimately show ?thesis
    using False e52 by (simp add: floorOfQuotient_def Let_def)
qed

lemma floorOfQuotient_60000:
  assumes "0 \<le> ms" and "ms \<le> maxExact"
  shows "floorOfQuotient ms 60000 = ms div 60000"
proof -
  have "ms div 60000 \<le> maxExact div 60000" using assms(2) by (rule zdiv_mono1) simp
  then have "ms div 60000 < 2 ^ 38" by (simp add: maxExact_def)
  then show ?thesis using assms(1) by (intro floorOfQuotient_exact [where k = 38]) simp_all
qed

lemma floorOfQuotient_1000:
  assumes "0 \<le> r" and "r < 60000"
  shows "floorOfQuotient r 1000 = r div 1000"
proof -
  have "r div 1000 \<le> 59999 div 1000" using assms(2) by (intro zdiv_mono1) simp_all
  then have "r div 1000 < 2 ^ 6" by simp
  then show ?thesis using assms(1) by (intro floorOfQuotient_exact [where k = 6]) simp_all
qed

lemma num_times_exact: "\<bar>a * k\<bar> \<le> maxExact \<Longrightarrow> num_times (Double a) k = Double (a * k)"
  by (simp add: toDouble_exact)

lemma num_plus_exact:
  "\<bar>a + b\<bar> \<le> maxExact \<Longrightarrow> num_plus (Double a) (Double b) = Double (a + b)"
  by (simp add: toDouble_exact)

lemma exact_sum:
  assumes "\<bar>m\<bar> * 60000 + \<bar>sec\<bar> * 1000 + \<bar>l\<bar> \<le> maxExact"
  shows "num_plus
           (num_plus (num_times (num_times (Double m) 60) 1000) (num_times (Double sec) 1000))
           (Double l) = Double (m * 60000 + sec * 1000 + l)"
proof -
  have 1: "\<bar>m * 60\<bar> \<le> maxExact" using assms by linarith
  have 2: "\<bar>m * 60 * 1000\<bar> \<le> maxExact" using assms by linarith
  have 3: "\<bar>sec * 1000\<bar> \<le> maxExact" using assms by linarith
  have 4: "\<bar>m * 60 * 1000 + sec * 1000\<bar> \<le> maxExact" using assms by linarith
  have 5: "\<bar>m * 60 * 1000 + sec * 1000 + l\<bar> \<le> maxExact" using assms by linarith
  have "num_times (num_times (Double m) 60) 1000 = Double (m * 60 * 1000)"
    by (simp only: num_times_exact [OF 1] num_times_exact [OF 2])
  moreover have "num_times (Double sec) 1000 = Double (sec * 1000)"
    by (rule num_times_exact [OF 3])
  ultimately show ?thesis
    by (simp only: num_plus_exact [OF 4] num_plus_exact [OF 5]) simp
qed

section \<open>Properties of the time helpers\<close>

lemma isDigit_padStart: "0 \<le> n \<Longrightarrow> list_all isDigit (padStart k CHR ''0'' (decimal n))"
  using isDigit_decimal [of n] isDigit_digitChar [of 0]
  by (auto simp: padStart_def list_all_iff digitChar_0)

lemma padStart_not_Nil: "padStart k c (decimal n) \<noteq> []"
  by (simp add: padStart_def decimal_not_Nil)

lemma digitsValue_padStart: "0 \<le> n \<Longrightarrow> digitsValue (padStart k CHR ''0'' (decimal n)) = n"
  by (simp add: padStart_def digitsValue_zeros digitsValue_decimal)

lemma length_padStart: "length s \<le> k \<Longrightarrow> length (padStart k c s) = k"
  by (simp add: padStart_def)

lemma isDigit_padEnd: "list_all isDigit L \<Longrightarrow> list_all isDigit (padEnd k CHR ''0'' L)"
  using isDigit_digitChar [of 0] by (auto simp: padEnd_def list_all_iff digitChar_0)

lemma toString_nonneg: "0 \<le> n \<Longrightarrow> toString n = decimal n"
  by (simp add: toString_def)

lemma js_rem_nonneg: "0 \<le> a \<Longrightarrow> 0 < b \<Longrightarrow> js_rem a b = a mod b"
  by (simp add: js_rem_def)

lemma msToTimeString_exact:
  assumes "0 \<le> ms" and "ms \<le> maxExact"
  shows "msToTimeString ms =
     Some (decimal (ms div 60000) @ '':'' @ padStart 2 CHR ''0'' (decimal (ms mod 60000 div 1000))
             @ ''.'' @ padStart 3 CHR ''0'' (decimal (ms mod 1000)))"
proof -
  have m: "floorOfQuotient ms 60000 = ms div 60000"
    using assms by (rule floorOfQuotient_60000)
  have r1: "js_rem ms 60000 = ms mod 60000" and r2: "js_rem ms 1000 = ms mod 1000"
    using assms(1) by (simp_all add: js_rem_nonneg)
  have s: "floorOfQuotient (ms mod 60000) 1000 = ms mod 60000 div 1000"
    by (rule floorOfQuotient_1000) simp_all
  have "ms div 60000 \<le> ms div 1" using assms(1) by (intro zdiv_mono2) simp_all
  then have "ms div 60000 \<le> ms" by simp
  with assms have range: "\<bar>ms div 60000\<bar> \<le> maxExact"
    by (simp add: pos_imp_zdiv_nonneg_iff)
  have nonneg: "0 \<le> ms div 60000" "0 \<le> ms mod 60000 div 1000" "0 \<le> ms mod 1000"
    using assms(1) by (simp_all add: pos_imp_zdiv_nonneg_iff)
  have dbl: "toDouble ms = ms" using assms by (intro toDouble_exact) simp
  show ?thesis
    unfolding msToTimeString_def Let_def m r1 r2 s
    using range nonneg dbl by (simp add: toString_nonneg)
qed

lemma map_apostrophe_digits:
  "apostrophe \<notin> set s \<Longrightarrow> map (\<lambda>c. if c = apostrophe then CHR '':'' else c) s = s"
  by (induction s) auto

lemma digits_no_char: "list_all isDigit ds \<Longrightarrow> \<not> isDigit c \<Longrightarrow> c \<notin> set ds"
  by (auto simp: list_all_iff)

lemma not_isDigit_seps: "\<not> isDigit CHR '':''" "\<not> isDigit CHR ''.''" "\<not> isDigit apostrophe"
  by (simp_all add: isDigit_def apostrophe_def)

lemma formatLapTime_no_apostrophe: "apostrophe \<notin> set s \<Longrightarrow> formatLapTime s = s"
  by (simp add: formatLapTime_def map_apostrophe_digits)

lemma split_two_iff: "(\<exists>a b. split c s = [a, b]) \<longleftrightarrow> count_list s c = 1"
proof
  assume "\<exists>a b. split c s = [a, b]"
  then have "length (split c s) = 2" by auto
  then show "count_list s c = 1" by (simp add: length_split)
next
  assume "count_list s c = 1"
  then show "\<exists>a b. split c s = [a, b]" by (simp add: split_one_sep)
qed

lemma parseTimeToMs_not_two:
  "length (split CHR '':'' (formatLapTime s)) \<noteq> 2 \<Longrightarrow> parseTimeToMs s = Inr (Double 0)"
  by (simp add: parseTimeToMs_def formatLapTime_def Let_def)

lemma parseTimeToMs_two:
  assumes "split CHR '':'' (formatLapTime s) = [a, b]" and "split CHR ''.'' b = c # r"
  shows "parseTimeToMs s =
           (let minutes = parseInt a;
                seconds = parseInt c;
                milliseconds =
                  (case r of [] \<Rightarrow> Double 0
                   | f # _ \<Rightarrow> if f \<noteq> [] then parseInt (padEnd 3 CHR ''0'' f) else Double 0)
            in if isNaN minutes \<or> isNaN seconds \<or> isNaN milliseconds then Inr (Double 0)
               else Inr (num_plus
                           (num_plus (num_times (num_times minutes 60) 1000)
                              (num_times seconds 1000))
                           milliseconds))"
proof -
  have parts: "split CHR '':'' (map (\<lambda>c. if c = apostrophe then CHR '':'' else c) s) = [a, b]"
    using assms(1) by (simp add: formatLapTime_def)
  show ?thesis
    unfolding parseTimeToMs_def Let_def parts
    by (cases r) (simp_all add: at_def assms(2))
qed

lemma parseTimeToMs_total: "\<exists>n. parseTimeToMs s = Inr n"
proof (cases "length (split CHR '':'' (formatLapTime s)) = 2")
  case False
  then show ?thesis by (simp add: parseTimeToMs_not_two)
next
  case True
  then obtain a b where ab: "split CHR '':'' (formatLapTime s) = [a, b]"
    by (cases "split CHR '':'' (formatLapTime s)") (auto simp: length_Suc_conv)
  obtain c r where cr: "split CHR ''.'' b = c # r"
    using split_not_Nil [of "CHR ''.''" b] by (cases "split CHR ''.'' b") auto
  show ?thesis
    unfolding parseTimeToMs_two [OF ab cr] by (simp add: Let_def)
qed

lemma parseTimeToMs_digits:
  assumes M: "M \<noteq> []" "list_all isDigit M" "length M \<le> 20"
      and S: "S \<noteq> []" "list_all isDigit S" "length S \<le> 20"
      and L: "L \<noteq> []" "list_all isDigit L" "length L \<le> 20"
      and bound: "digitsValue M * 60000 + digitsValue S * 1000
                    + digitsValue (padEnd 3 CHR ''0'' L) \<le> maxExact"
  shows "parseTimeToMs (M @ '':'' @ S @ ''.'' @ L) =
           Inr (Double (digitsValue M * 60000 + digitsValue S * 1000
                          + digitsValue (padEnd 3 CHR ''0'' L)))"
proof -
  let ?rest = "S @ ''.'' @ L"
  let ?P = "padEnd 3 CHR ''0'' L"
  have noap: "apostrophe \<notin> set (M @ '':'' @ ?rest)"
    using digits_no_char [OF M(2) not_isDigit_seps(3)] digits_no_char [OF S(2) not_isDigit_seps(3)]
      digits_no_char [OF L(2) not_isDigit_seps(3)]
    by (simp add: apostrophe_def)
  have colon_rest: "CHR '':'' \<notin> set ?rest"
    using digits_no_char [OF S(2) not_isDigit_seps(1)] digits_no_char [OF L(2) not_isDigit_seps(1)]
    by simp
  have "split CHR '':'' (M @ '':'' @ ?rest) = [M, ?rest]"
    using split_first_sep [OF digits_no_char [OF M(2) not_isDigit_seps(1)], of ?rest]
      split_no_sep [OF colon_rest] by simp
  then have parts: "split CHR '':'' (formatLapTime (M @ '':'' @ ?rest)) = [M, ?rest]"
    by (simp only: formatLapTime_no_apostrophe [OF noap])
  have sparts: "split CHR ''.'' ?rest = [S, L]"
    using split_first_sep [OF digits_no_char [OF S(2) not_isDigit_seps(2)], of L]
      split_no_sep [OF digits_no_char [OF L(2) not_isDigit_seps(2)]] by simp
  have P: "?P \<noteq> []" "list_all isDigit ?P" "length ?P \<le> 20"
  proof -
    show "?P \<noteq> []" using L(1) by (simp add: padEnd_def)
    show "list_all isDigit ?P" using L(2) by (rule isDigit_padEnd)
    show "length ?P \<le> 20" using L(3) by (simp add: padEnd_def)
  qed
  have nn: "0 \<le> digitsValue M" "0 \<le> digitsValue S" "0 \<le> digitsValue ?P"
    using M(2) S(2) P(2) by (simp_all add: digitsValue_nonneg)
  with bound have small: "\<bar>digitsValue M\<bar> \<le> maxExact" "\<bar>digitsValue S\<bar> \<le> maxExact"
      "\<bar>digitsValue ?P\<bar> \<le> maxExact"
    by linarith+
  have pM: "parseInt M = Double (digitsValue M)"
    by (simp add: parseInt_digits [OF M] toDouble_exact [OF small(1)])
  have pS: "parseInt S = Double (digitsValue S)"
    by (simp add: parseInt_digits [OF S] toDouble_exact [OF small(2)])
  have pL: "parseInt ?P = Double (digitsValue ?P)"
    by (simp add: parseInt_digits [OF P] toDouble_exact [OF small(3)])
  have "\<bar>digitsValue M\<bar> * 60000 + \<bar>digitsValue S\<bar> * 1000 + \<bar>digitsValue ?P\<bar> \<le> maxExact"
    using nn bound by simp
  from exact_sum [OF this] show ?thesis
    unfolding parseTimeToMs_two [OF parts sparts]
    by (simp add: pM pS pL L(1) Let_def)
qed

text \<open>
  Claim C7, as stated: for every non-negative integer \<open>ms\<close> the minutes that
  \<open>msToTimeString(ms)\<close> prints are \<open>floor(ms / 60000)\<close>. It fails beyond \<open>2^53\<close>, where the
  division rounds: 9007199254741019648 is a double, the minutes printed are 150119987579017,
  and the floor of the exact quotient is 150119987579016.
\<close>

theorem msToTimeString_large_counterexample:
  "(0::int) \<le> 9007199254741019648
   \<and> toDouble 9007199254741019648 = 9007199254741019648
   \<and> msToTimeString 9007199254741019648 = Some ''150119987579017:59.648''
   \<and> toString (9007199254741019648 div 60000) = ''150119987579016''
   \<and> msToTimeString 9007199254741019648
       \<noteq> Some (toString (9007199254741019648 div 60000) @ '':''
                 @ padStart 2 CHR ''0'' (toString (9007199254741019648 mod 60000 div 1000)) @ ''.''
                 @ padStart 3 CHR ''0'' (toString (9007199254741019648 mod 1000)))"
  by code_simp

text \<open>
  Claim C7, amended. For an integer \<open>ms\<close> with \<open>0 \<le> ms \<le> 2^53\<close>, \<open>msToTimeString(ms)\<close> is the
  minutes \<open>floor(ms / 60000)\<close> in decimal, a colon, the seconds \<open>floor((ms mod 60000) / 1000)\<close>
  padded with zeros to two digits, a dot, and the milliseconds \<open>ms mod 1000\<close> padded with zeros
  to three digits. The padded fields are exactly two and three characters long, and the minutes
  carry no leading zero. In particular \<open>msToTimeString(83456) = "1:23.456"\<close> and
  \<open>msToTimeString(0) = "0:00.000"\<close>.
\<close>

theorem msToTimeString_format:
  "0 \<le> ms \<Longrightarrow> ms \<le> 2 ^ 53 \<Longrightarrow>
     msToTimeString ms =
       Some (toString (ms div 60000) @ '':''
               @ padStart 2 CHR ''0'' (toString (ms mod 60000 div 1000))
               @ ''.'' @ padStart 3 CHR ''0'' (toString (ms mod 1000)))
     \<and> length (padStart 2 CHR ''0'' (toString (ms mod 60000 div 1000))) = 2
     \<and> length (padStart 3 CHR ''0'' (toString (ms mod 1000))) = 3
     \<and> (60000 \<le> ms \<longrightarrow> hd (toString (ms div 60000)) \<noteq> CHR ''0'')
     \<and> msToTimeString 83456 = Some ''1:23.456''
     \<and> msToTimeString 0 = Some ''0:00.000''"
proof -
  assume ms: "0 \<le> ms" and "ms \<le> 2 ^ 53"
  then have le: "ms \<le> maxExact" by (simp add: maxExact_def)
  have nonneg: "0 \<le> ms div 60000" "0 \<le> ms mod 60000 div 1000" "0 \<le> ms mod 1000"
    using ms by (simp_all add: pos_imp_zdiv_nonneg_iff)
  have "ms mod 60000 div 1000 \<le> 59999 div 1000"
    by (intro zdiv_mono1) simp_all
  then have "ms mod 60000 div 1000 < 10 ^ 2" by simp
  then have s2: "length (decimal (ms mod 60000 div 1000)) \<le> 2"
    using nonneg(2) by (intro length_decimal) simp_all
  have "ms mod 1000 < 10 ^ 3" by simp
  then have l3: "length (decimal (ms mod 1000)) \<le> 3"
    using nonneg(3) by (intro length_decimal) simp_all
  have hd0: "60000 \<le> ms \<Longrightarrow> hd (decimal (ms div 60000)) \<noteq> CHR ''0''"
    by (rule hd_decimal) (simp add: pos_imp_zdiv_pos_iff)
  have e1: "msToTimeString 83456 = Some ''1:23.456''" by code_simp
  have e2: "msToTimeString 0 = Some ''0:00.000''" by code_simp
  show ?thesis
    using msToTimeString_exact [OF ms le] length_padStart [OF s2] length_padStart [OF l3]
      hd0 e1 e2 nonneg
    by (simp add: toString_nonneg)
qed

theorem msToTimeString_format_witness:
  "(0::int) \<le> 135789 \<and> (135789::int) \<le> 2 ^ 53 \<and> msToTimeString 135789 = Some ''2:15.789''"
proof -
  have h1: "(0::int) \<le> 135789" and h2: "(135789::int) \<le> 2 ^ 53" by simp_all
  have "msToTimeString 135789 =
       Some (toString (135789 div 60000) @ '':''
               @ padStart 2 CHR ''0'' (toString (135789 mod 60000 div 1000))
               @ ''.'' @ padStart 3 CHR ''0'' (toString (135789 mod 1000)))"
    using msToTimeString_format [OF h1 h2] by blast
  also have "\<dots> = Some ''2:15.789''" by code_simp
  finally show ?thesis using h1 h2 by blast
qed

text \<open>
  Claim C1, as stated: the round trip holds for every triple of natural numbers with seconds
  below 60 and milliseconds below 1000. It fails at (8796093022208, 59, 968): the number
  527765581332539968 is a double, its minutes are printed as 8796093022209 because the
  division rounds, and parsing the text gives 527765581332600000.
\<close>

theorem parseTimeToMs_msToTimeString_counterexample:
  "(59::int) < 60 \<and> (968::int) < 1000
   \<and> 8796093022208 * 60000 + 59 * 1000 + 968 = (527765581332539968::int)
   \<and> toDouble 527765581332539968 = 527765581332539968
   \<and> msToTimeString 527765581332539968 = Some ''8796093022209:59.968''
   \<and> parseTimeToMs ''8796093022209:59.968'' = Inr (Double 527765581332600000)
   \<and> map_option parseTimeToMs (msToTimeString 527765581332539968)
       \<noteq> Some (Inr (Double 527765581332539968))"
  by code_simp

text \<open>
  Claim C1, amended. For all natural numbers \<open>m\<close>, \<open>s < 60\<close> and \<open>l < 1000\<close> with
  \<open>m * 60000 + s * 1000 + l \<le> 2^53\<close>, \<open>msToTimeString\<close> gives a text for that number and
  \<open>parseTimeToMs\<close> gives the number back from it.
\<close>

theorem parseTimeToMs_msToTimeString:
  assumes "s < 60" and "l < 1000" and "m * 60000 + s * 1000 + l \<le> 2 ^ 53"
  shows "map_option parseTimeToMs (msToTimeString (int (m * 60000 + s * 1000 + l))) =
           Some (Inr (Double (int (m * 60000 + s * 1000 + l))))"
proof -
  let ?M = "int m" and ?S = "int s" and ?L = "int l"
  let ?n = "?M * 60000 + (?S * 1000 + ?L)"
  have n: "int (m * 60000 + s * 1000 + l) = ?n" by simp
  have S: "0 \<le> ?S" "?S < 60" and L: "0 \<le> ?L" "?L < 1000" and M: "0 \<le> ?M"
    using assms by simp_all
  have "int (m * 60000 + s * 1000 + l) \<le> int (2 ^ 53)" using assms(3) by (rule of_nat_mono)
  then have le: "?n \<le> maxExact" by (simp add: maxExact_def)
  have n0: "0 \<le> ?n" by simp
  have small: "0 \<le> ?S * 1000 + ?L" "?S * 1000 + ?L < 60000" using S L by simp_all
  have d: "?n div 60000 = ?M"
    using small by (intro int_div_pos_eq [where r = "?S * 1000 + ?L"]) simp_all
  have r: "?n mod 60000 = ?S * 1000 + ?L"
    using small by (intro int_mod_pos_eq [where q = ?M]) simp_all
  have ds: "?n mod 60000 div 1000 = ?S"
    unfolding r using L by (intro int_div_pos_eq [where r = ?L]) simp_all
  have dl: "?n mod 1000 = ?L"
    using L by (intro int_mod_pos_eq [where q = "?M * 60 + ?S"]) simp_all
  let ?ss = "padStart 2 CHR ''0'' (decimal ?S)" and ?ls = "padStart 3 CHR ''0'' (decimal ?L)"
  have str: "msToTimeString ?n = Some (decimal ?M @ '':'' @ ?ss @ ''.'' @ ?ls)"
    unfolding msToTimeString_exact [OF n0 le] d ds dl ..
  have "?S < 10 ^ 2" using S by simp
  then have len2: "length ?ss = 2"
    using S(1) by (intro length_padStart length_decimal) simp_all
  have "?L < 10 ^ 3" using L by simp
  then have len3: "length ?ls = 3"
    using L(1) by (intro length_padStart length_decimal) simp_all
  have "?M \<le> ?n" using S L by simp
  with le have "?M < 10 ^ 20" by (simp add: maxExact_def)
  then have lenM: "length (decimal ?M) \<le> 20"
    using M by (intro length_decimal) simp_all
  have pad: "padEnd 3 CHR ''0'' ?ls = ?ls"
    using len3 by (simp add: padEnd_def)
  have vals: "digitsValue (decimal ?M) = ?M" "digitsValue ?ss = ?S" "digitsValue ?ls = ?L"
    using M S(1) L(1) by (simp_all add: digitsValue_decimal digitsValue_padStart)
  have "parseTimeToMs (decimal ?M @ '':'' @ ?ss @ ''.'' @ ?ls) =
          Inr (Double (digitsValue (decimal ?M) * 60000 + digitsValue ?ss * 1000
                         + digitsValue (padEnd 3 CHR ''0'' ?ls)))"
  proof (rule parseTimeToMs_digits)
    show "decimal ?M \<noteq> []" by (rule decimal_not_Nil)
    show "list_all isDigit (decimal ?M)" using M by (rule isDigit_decimal)
    show "length (decimal ?M) \<le> 20" by (rule lenM)
    show "?ss \<noteq> []" by (rule padStart_not_Nil)
    show "list_all isDigit ?ss" using S(1) by (rule isDigit_padStart)
    show "length ?ss \<le> 20" using len2 by simp
    show "?ls \<noteq> []" by (rule padStart_not_Nil)
    show "list_all isDigit ?ls" using L(1) by (rule isDigit_padStart)
    show "length ?ls \<le> 20" using len3 by simp
    show "digitsValue (decimal ?M) * 60000 + digitsValue ?ss * 1000
            + digitsValue (padEnd 3 CHR ''0'' ?ls) \<le> maxExact"
      unfolding pad vals using le by simp
  qed
  then have "parseTimeToMs (decimal ?M @ '':'' @ ?ss @ ''.'' @ ?ls) = Inr (Double ?n)"
    unfolding pad vals by simp
  then show ?thesis unfolding n str by simp
qed

theorem parseTimeToMs_msToTimeString_witness:
  "(23::nat) < 60 \<and> (456::nat) < 1000 \<and> (1 * 60000 + 23 * 1000 + 456 :: nat) \<le> 2 ^ 53
     \<and> map_option parseTimeToMs (msToTimeString (int (1 * 60000 + 23 * 1000 + 456))) =
         Some (Inr (Double (int (1 * 60000 + 23 * 1000 + 456))))"
proof -
  have h1: "(23::nat) < 60" and h2: "(456::nat) < 1000"
    and h3: "(1 * 60000 + 23 * 1000 + 456 :: nat) \<le> 2 ^ 53" by simp_all
  from parseTimeToMs_msToTimeString [OF h1 h2 h3] h1 h2 h3 show ?thesis by blast
qed

text \<open>
  Claim C2, as stated: a minutes or seconds part that is not numeric gives 0. It fails on
  \<open>"1x:23"\<close>: the minutes part \<open>1x\<close> is not a number, but \<open>parseInt\<close> reads its leading digit
  and ignores the rest, and the result is 83000.
\<close>

theorem parseTimeToMs_trailing_text_counterexample:
  "split CHR '':'' (formatLapTime ''1x:23'') = [''1x'', ''23'']
   \<and> \<not> list_all isDigit ''1x''
   \<and> parseInt ''1x'' = Double 1
   \<and> parseTimeToMs ''1x:23'' = Inr (Double 83000)
   \<and> parseTimeToMs ''1x:23'' \<noteq> Inr (Double 0)"
  by code_simp

text \<open>
  Claim C2, amended. \<open>parseTimeToMs\<close> returns 0 when the string, with its apostrophes turned
  into colons, does not split at \<open>:\<close> into exactly two parts (it does not hold exactly one
  colon), or when \<open>parseInt\<close> gives \<open>NaN\<close> for the minutes part or for the seconds part (the
  text in front of the first dot of the second part). \<open>parseInt\<close> gives \<open>NaN\<close> exactly when
  the text, after leading white space and one optional sign, does not begin with a decimal
  digit. No input makes the function raise. In particular \<open>"invalid"\<close>, the empty string,
  \<open>"1:"\<close> and \<open>":23"\<close> all give 0.
\<close>

theorem parseTimeToMs_failure:
  "(length (split CHR '':'' (formatLapTime s)) \<noteq> 2 \<longrightarrow> parseTimeToMs s = Inr (Double 0))
   \<and> (count_list (formatLapTime s) CHR '':'' \<noteq> 1 \<longrightarrow> parseTimeToMs s = Inr (Double 0))
   \<and> (split CHR '':'' (formatLapTime s) = [a, b]
        \<and> (parseInt a = NotANumber \<or> parseInt (hd (split CHR ''.'' b)) = NotANumber)
      \<longrightarrow> parseTimeToMs s = Inr (Double 0))
   \<and> (parseInt p = NotANumber \<longleftrightarrow>
        (let t = dropWhile isWhiteSpace p;
             u = (if t \<noteq> [] \<and> (hd t = CHR ''+'' \<or> hd t = CHR ''-'') then tl t else t)
         in u = [] \<or> \<not> isDigit (hd u)))
   \<and> (\<exists>n. parseTimeToMs s = Inr n)
   \<and> parseTimeToMs ''invalid'' = Inr (Double 0)
   \<and> parseTimeToMs [] = Inr (Double 0)
   \<and> parseTimeToMs ''1:'' = Inr (Double 0)
   \<and> parseTimeToMs '':23'' = Inr (Double 0)"
proof -
  have two: "parseTimeToMs s = Inr (Double 0)"
    if ab: "split CHR '':'' (formatLapTime s) = [a, b]"
      and nan: "parseInt a = NotANumber \<or> parseInt (hd (split CHR ''.'' b)) = NotANumber"
  proof -
    obtain c r where cr: "split CHR ''.'' b = c # r"
      using split_not_Nil [of "CHR ''.''" b] by (cases "split CHR ''.'' b") auto
    from nan have "parseInt a = NotANumber \<or> parseInt c = NotANumber" by (simp add: cr)
    then show ?thesis
      unfolding parseTimeToMs_two [OF ab cr] by (auto simp: Let_def)
  qed
  have colons: "parseTimeToMs s = Inr (Double 0)"
    if "count_list (formatLapTime s) CHR '':'' \<noteq> 1"
    using that by (intro parseTimeToMs_not_two) (simp add: length_split)
  have e1: "parseTimeToMs ''invalid'' = Inr (Double 0)" by code_simp
  have e2: "parseTimeToMs [] = Inr (Double 0)" by code_simp
  have e3: "parseTimeToMs ''1:'' = Inr (Double 0)" by code_simp
  have e4: "parseTimeToMs '':23'' = Inr (Double 0)" by code_simp
  show ?thesis
    using parseTimeToMs_not_two [of s] colons two parseTimeToMs_total [of s]
      parseInt_NaN_iff [of p] e1 e2 e3 e4
    by blast
qed

theorem parseTimeToMs_failure_witness:
  "length (split CHR '':'' (formatLapTime ''1:2:3'')) \<noteq> 2
   \<and> parseTimeToMs ''1:2:3'' = Inr (Double 0)
   \<and> split CHR '':'' (formatLapTime ''x:23.5'') = [''x'', ''23.5'']
   \<and> parseInt ''x'' = NotANumber
   \<and> parseTimeToMs ''x:23.5'' = Inr (Double 0)"
proof -
  have h1: "length (split CHR '':'' (formatLapTime ''1:2:3'')) \<noteq> 2" by code_simp
  have h2: "split CHR '':'' (formatLapTime ''x:23.5'') = [''x'', ''23.5'']" by code_simp
  have h3: "parseInt ''x'' = NotANumber" by code_simp
  have c1: "parseTimeToMs ''1:2:3'' = Inr (Double 0)"
    using parseTimeToMs_failure [of "''1:2:3''"] h1 by blast
  have c2: "parseTimeToMs ''x:23.5'' = Inr (Double 0)"
    using parseTimeToMs_failure [of "''x:23.5''" "''x''" "''23.5''"] h2 h3 by blast
  from h1 h2 h3 c1 c2 show ?thesis by blast
qed

text \<open>
  Claim C6, as stated: every string with exactly one colon and integer minutes and seconds
  parts gives \<open>minutes * 60000 + seconds * 1000 + milliseconds\<close>. It fails on \<open>"1:23.abc"\<close>:
  the string has one colon, its minutes part reads as 1 and its seconds part as 23, but the
  fragment \<open>abc\<close> does not read as an integer, and the \<open>isNaN\<close> guard makes the result 0.
\<close>

theorem parseTimeToMs_bad_fragment_counterexample:
  "split CHR '':'' (formatLapTime ''1:23.abc'') = [''1'', ''23.abc'']
   \<and> parseInt ''1'' = Double 1
   \<and> split CHR ''.'' ''23.abc'' = [''23'', ''abc'']
   \<and> parseInt ''23'' = Double 23
   \<and> parseInt (padEnd 3 CHR ''0'' ''abc'') = NotANumber
   \<and> parseTimeToMs ''1:23.abc'' = Inr (Double 0)
   \<and> parseTimeToMs ''1:23.abc'' \<noteq> Inr (Double (1 * 60000 + 23 * 1000 + 0))"
  by code_simp

text \<open>
  Claim C6, amended. Let the string, with its apostrophes turned into colons, split at \<open>:\<close>
  into exactly two parts \<open>a\<close> and \<open>b\<close>, let \<open>parseInt\<close> read \<open>a\<close> as the integer \<open>m\<close> and the
  text \<open>c\<close> in front of the first dot of \<open>b\<close> as the integer \<open>sec\<close>. The millisecond fragment
  contributes 0 when it is missing or empty, and otherwise what \<open>parseInt\<close> reads from the
  fragment padded on the right with zeros to three characters. When that is \<open>NaN\<close> the result
  is 0. When it is an integer \<open>l\<close> and \<open>|m| * 60000 + |sec| * 1000 + |l| \<le> 2^53\<close>, the result
  is \<open>m * 60000 + sec * 1000 + l\<close>. So \<open>parseTimeToMs("1:23") = 83000\<close> and
  \<open>parseTimeToMs("1:23.4") = 83400\<close>.
\<close>

theorem parseTimeToMs_well_formed:
  "(split CHR '':'' (formatLapTime s) = [a, b] \<and> parseInt a = Double m
      \<and> split CHR ''.'' b = c # r \<and> parseInt c = Double sec
      \<and> fragment =
          (case r of [] \<Rightarrow> Double 0
           | f # _ \<Rightarrow> if f = [] then Double 0 else parseInt (padEnd 3 CHR ''0'' f))
    \<longrightarrow> (fragment = NotANumber \<longrightarrow> parseTimeToMs s = Inr (Double 0))
        \<and> (fragment = Double l \<and> \<bar>m\<bar> * 60000 + \<bar>sec\<bar> * 1000 + \<bar>l\<bar> \<le> 2 ^ 53
           \<longrightarrow> parseTimeToMs s = Inr (Double (m * 60000 + sec * 1000 + l))))
   \<and> parseTimeToMs ''1:23'' = Inr (Double 83000)
   \<and> parseTimeToMs ''1:23.4'' = Inr (Double 83400)"
proof -
  have gen: "(fragment = NotANumber \<longrightarrow> parseTimeToMs s = Inr (Double 0))
        \<and> (fragment = Double l \<and> \<bar>m\<bar> * 60000 + \<bar>sec\<bar> * 1000 + \<bar>l\<bar> \<le> 2 ^ 53
           \<longrightarrow> parseTimeToMs s = Inr (Double (m * 60000 + sec * 1000 + l)))"
    if ab: "split CHR '':'' (formatLapTime s) = [a, b]" and a: "parseInt a = Double m"
      and cr: "split CHR ''.'' b = c # r" and c: "parseInt c = Double sec"
      and f: "fragment =
          (case r of [] \<Rightarrow> Double 0
           | f # _ \<Rightarrow> if f = [] then Double 0 else parseInt (padEnd 3 CHR ''0'' f))"
  proof -
    have frag: "(case r of [] \<Rightarrow> Double 0
           | f # _ \<Rightarrow> if f \<noteq> [] then parseInt (padEnd 3 CHR ''0'' f) else Double 0) = fragment"
      unfolding f by (simp split: list.splits)
    have res: "parseTimeToMs s =
        (if isNaN fragment then Inr (Double 0)
         else Inr (num_plus
                     (num_plus (num_times (num_times (Double m) 60) 1000)
                        (num_times (Double sec) 1000))
                     fragment))"
      unfolding parseTimeToMs_two [OF ab cr] a c frag by (simp add: Let_def)
    have "parseTimeToMs s = Inr (Double (m * 60000 + sec * 1000 + l))"
      if "fragment = Double l" and "\<bar>m\<bar> * 60000 + \<bar>sec\<bar> * 1000 + \<bar>l\<bar> \<le> 2 ^ 53"
    proof -
      from that(2) have "\<bar>m\<bar> * 60000 + \<bar>sec\<bar> * 1000 + \<bar>l\<bar> \<le> maxExact"
        by (simp add: maxExact_def)
      from exact_sum [OF this] show ?thesis by (simp add: res that(1))
    qed
    then show ?thesis by (auto simp: res)
  qed
  have e1: "parseTimeToMs ''1:23'' = Inr (Double 83000)" by code_simp
  have e2: "parseTimeToMs ''1:23.4'' = Inr (Double 83400)" by code_simp
  from gen e1 e2 show ?thesis by blast
qed

theorem parseTimeToMs_well_formed_witness:
  "split CHR '':'' (formatLapTime ''2:15.7'') = [''2'', ''15.7'']
   \<and> parseInt ''2'' = Double 2
   \<and> split CHR ''.'' ''15.7'' = [''15'', ''7'']
   \<and> parseInt ''15'' = Double 15
   \<and> parseInt (padEnd 3 CHR ''0'' ''7'') = Double 700
   \<and> \<bar>2\<bar> * 60000 + \<bar>15\<bar> * 1000 + \<bar>700\<bar> \<le> (2 ^ 53 :: int)
   \<and> parseTimeToMs ''2:15.7'' = Inr (Double 135700)"
proof -
  have h1: "split CHR '':'' (formatLapTime ''2:15.7'') = [''2'', ''15.7'']" by code_simp
  have h2: "parseInt ''2'' = Double 2" by code_simp
  have h3: "split CHR ''.'' ''15.7'' = [''15'', ''7'']" by code_simp
  have h4: "parseInt ''15'' = Double 15" by code_simp
  have p: "parseInt (padEnd 3 CHR ''0'' ''7'') = Double 700" by code_simp
  have h5: "Double 700 =
      (case [''7''] of [] \<Rightarrow> Double 0
       | f # _ \<Rightarrow> if f = [] then Double 0 else parseInt (padEnd 3 CHR ''0'' f))"
    by (simp add: p)
  have h6: "\<bar>2\<bar> * 60000 + \<bar>15\<bar> * 1000 + \<bar>700\<bar> \<le> (2 ^ 53 :: int)" by simp
  have "parseTimeToMs ''2:15.7'' = Inr (Double (2 * 60000 + 15 * 1000 + 700))"
    using parseTimeToMs_well_formed
      [of "''2:15.7''" "''2''" "''15.7''" 2 "''15''" "[''7'']" 15 "Double 700" 700]
      h1 h2 h3 h4 h5 h6 by blast
  then have c: "parseTimeToMs ''2:15.7'' = Inr (Double 135700)" by simp
  from h1 h2 h3 h4 p h6 c show ?thesis by blast
qed

text \<open>
  Claim C10. A millisecond fragment of more than three digits is not cut down to three:
  padding to three characters leaves it as it is, and after decimal minutes and seconds the
  whole fragment is read as an integer and added. The sum is exact for parts of at most 20
  digits whose sum stays within \<open>2^53\<close>. So the result can exceed what three digits could
  contribute: \<open>parseTimeToMs("1:23.4567")\<close> is \<open>60000 + 23000 + 4567 = 87567\<close>, more than
  \<open>60000 + 23000 + 999\<close>.
\<close>

theorem parseTimeToMs_long_fragment:
  "(M \<noteq> [] \<and> list_all isDigit M \<and> length M \<le> 20
      \<and> S \<noteq> [] \<and> list_all isDigit S \<and> length S \<le> 20
      \<and> list_all isDigit L \<and> 3 < length L \<and> length L \<le> 20
      \<and> digitsValue M * 60000 + digitsValue S * 1000 + digitsValue L \<le> 2 ^ 53
    \<longrightarrow> parseTimeToMs (M @ '':'' @ S @ ''.'' @ L) =
          Inr (Double (digitsValue M * 60000 + digitsValue S * 1000 + digitsValue L)))
   \<and> (3 \<le> length L \<longrightarrow> padEnd 3 CHR ''0'' L = L)
   \<and> parseTimeToMs ''1:23.4567'' = Inr (Double (60000 + 23000 + 4567))
   \<and> parseTimeToMs ''1:23.4567'' = Inr (Double 87567)
   \<and> (60000 + 23000 + 999 :: int) < 87567"
proof -
  have pad: "padEnd 3 CHR ''0'' L = L" if "3 \<le> length L"
    using that by (simp add: padEnd_def)
  have gen: "parseTimeToMs (M @ '':'' @ S @ ''.'' @ L) =
          Inr (Double (digitsValue M * 60000 + digitsValue S * 1000 + digitsValue L))"
    if M: "M \<noteq> []" "list_all isDigit M" "length M \<le> 20"
      and S: "S \<noteq> []" "list_all isDigit S" "length S \<le> 20"
      and L: "list_all isDigit L" "3 < length L" "length L \<le> 20"
      and bound: "digitsValue M * 60000 + digitsValue S * 1000 + digitsValue L \<le> 2 ^ 53"
  proof -
    from L(2) have ne: "L \<noteq> []" by auto
    from L(2) have p: "padEnd 3 CHR ''0'' L = L" by (simp add: pad)
    from bound have "digitsValue M * 60000 + digitsValue S * 1000
        + digitsValue (padEnd 3 CHR ''0'' L) \<le> maxExact"
      by (simp add: p maxExact_def)
    from parseTimeToMs_digits [OF M S ne L(1) L(3) this] show ?thesis by (simp add: p)
  qed
  have e: "parseTimeToMs ''1:23.4567'' = Inr (Double 87567)" by code_simp
  from gen pad e show ?thesis by simp
qed

theorem parseTimeToMs_long_fragment_witness:
  "''2'' \<noteq> [] \<and> list_all isDigit ''2'' \<and> length ''2'' \<le> 20
   \<and> ''15'' \<noteq> [] \<and> list_all isDigit ''15'' \<and> length ''15'' \<le> 20
   \<and> list_all isDigit ''78901'' \<and> 3 < length ''78901'' \<and> length ''78901'' \<le> 20
   \<and> digitsValue ''2'' * 60000 + digitsValue ''15'' * 1000 + digitsValue ''78901'' \<le> 2 ^ 53
   \<and> parseTimeToMs ''2:15.78901'' = Inr (Double (2 * 60000 + 15 * 1000 + 78901))"
proof -
  have v: "digitsValue ''2'' = 2" "digitsValue ''15'' = 15" "digitsValue ''78901'' = 78901"
    by code_simp+
  have h: "''2'' \<noteq> [] \<and> list_all isDigit ''2'' \<and> length ''2'' \<le> 20
   \<and> ''15'' \<noteq> [] \<and> list_all isDigit ''15'' \<and> length ''15'' \<le> 20
   \<and> list_all isDigit ''78901'' \<and> 3 < length ''78901'' \<and> length ''78901'' \<le> 20
   \<and> digitsValue ''2'' * 60000 + digitsValue ''15'' * 1000 + digitsValue ''78901'' \<le> 2 ^ 53"
    by (simp add: isDigit_def v)
  have "parseTimeToMs (''2'' @ '':'' @ ''15'' @ ''.'' @ ''78901'') =
          Inr (Double (digitsValue ''2'' * 60000 + digitsValue ''15'' * 1000
                         + digitsValue ''78901''))"
    using parseTimeToMs_long_fragment [of "''2''" "''15''" "''78901''"] h by blast
  then have c: "parseTimeToMs ''2:15.78901'' = Inr (Double (2 * 60000 + 15 * 1000 + 78901))"
    by (simp add: v)
  from h c show ?thesis by blast
qed

section \<open>Properties of the category helper\<close>

text \<open>
  Claim C8. \<open>getCategoryId(name)\<close> puts the name in upper case, deletes every character
  outside \<open>[A-Z0-9]\<close>, and returns the MOTOGP, MOTO2, MOTO3 or MOTOE identifier exactly when
  what is left is \<open>MOTOGP\<close>, \<open>MOTO2\<close>, \<open>MOTO3\<close> or \<open>MOTOE\<close>; every other name gives no result
  (\<open>undefined\<close>), not an error. So \<open>"MotoGP"\<close>, \<open>"motogp"\<close> and \<open>"MOTO GP"\<close> all give the fixed
  MotoGP identifier, and \<open>"F1"\<close> gives nothing.
\<close>

theorem getCategoryId_normalized:
  "(getCategoryId name = Some (MOTOGP CATEGORY_IDS)
      \<longleftrightarrow> filter isUpperAlnum (toUpperCase name) = ''MOTOGP'')
   \<and> (getCategoryId name = Some (MOTO2 CATEGORY_IDS)
      \<longleftrightarrow> filter isUpperAlnum (toUpperCase name) = ''MOTO2'')
   \<and> (getCategoryId name = Some (MOTO3 CATEGORY_IDS)
      \<longleftrightarrow> filter isUpperAlnum (toUpperCase name) = ''MOTO3'')
   \<and> (getCategoryId name = Some (MOTOE CATEGORY_IDS)
      \<longleftrightarrow> filter isUpperAlnum (toUpperCase name) = ''MOTOE'')
   \<and> (getCategoryId name = None
      \<longleftrightarrow> filter isUpperAlnum (toUpperCase name) \<notin> {''MOTOGP'', ''MOTO2'', ''MOTO3'', ''MOTOE''})
   \<and> getCategoryId ''MotoGP'' = Some (MOTOGP CATEGORY_IDS)
   \<and> getCategoryId ''motogp'' = Some (MOTOGP CATEGORY_IDS)
   \<and> getCategoryId ''MOTO GP'' = Some (MOTOGP CATEGORY_IDS)
   \<and> MOTOGP CATEGORY_IDS = ''737ab122-76e1-4081-bedb-334caaa18c70''
   \<and> getCategoryId ''F1'' = None"
proof -
  have e1: "getCategoryId ''MotoGP'' = Some (MOTOGP CATEGORY_IDS)" by code_simp
  have e2: "getCategoryId ''motogp'' = Some (MOTOGP CATEGORY_IDS)" by code_simp
  have e3: "getCategoryId ''MOTO GP'' = Some (MOTOGP CATEGORY_IDS)" by code_simp
  have e4: "getCategoryId ''F1'' = None" by code_simp
  have gen: "(getCategoryId name = Some (MOTOGP CATEGORY_IDS)
      \<longleftrightarrow> filter isUpperAlnum (toUpperCase name) = ''MOTOGP'')
   \<and> (getCategoryId name = Some (MOTO2 CATEGORY_IDS)
      \<longleftrightarrow> filter isUpperAlnum (toUpperCase name) = ''MOTO2'')
   \<and> (getCategoryId name = Some (MOTO3 CATEGORY_IDS)
      \<longleftrightarrow> filter isUpperAlnum (toUpperCase name) = ''MOTO3'')
   \<and> (getCategoryId name = Some (MOTOE CATEGORY_IDS)
      \<longleftrightarrow> filter isUpperAlnum (toUpperCase name) = ''MOTOE'')
   \<and> (getCategoryId name = None
      \<longleftrightarrow> filter isUpperAlnum (toUpperCase name) \<notin> {''MOTOGP'', ''MOTO2'', ''MOTO3'', ''MOTOE''})"
    by (simp add: getCategoryId_def CATEGORY_IDS_def Let_def)
  have c: "MOTOGP CATEGORY_IDS = ''737ab122-76e1-4081-bedb-334caaa18c70''"
    by (simp add: CATEGORY_IDS_def)
  from gen e1 e2 e3 e4 c show ?thesis by blast
qed

theorem getCategoryId_normalized_witness:
  "filter isUpperAlnum (toUpperCase ''moto-2'') = ''MOTO2''
   \<and> getCategoryId ''moto-2'' = Some ''ea854a67-73a4-4a28-ac77-d67b3b2a530a''"
proof -
  have h: "filter isUpperAlnum (toUpperCase ''moto-2'') = ''MOTO2''" by code_simp
  have "getCategoryId ''moto-2'' = Some (MOTO2 CATEGORY_IDS)"
    using getCategoryId_normalized [of "''moto-2''"] h by blast
  with h show ?thesis by (simp add: CATEGORY_IDS_def)
qed

section \<open>Properties of the client\<close>

text \<open>
  Claim C9. The constructor takes each field as the option value or else the default, so
  every falsy option value is replaced, not only a missing one: a client made with timeout 0
  (or \<open>NaN\<close>) has timeout 10000, and one made with an empty base URL or an empty User-Agent
  has the default production base URL or the default browser User-Agent.
\<close>

theorem new_MotoGPClient_falsy_defaults:
  "baseURL (new_MotoGPClient (Some opts)) =
     (if ClientOptions.baseURL opts = None \<or> ClientOptions.baseURL opts = Some []
      then defaultBaseURL else the (ClientOptions.baseURL opts))
   \<and> timeout (new_MotoGPClient (Some opts)) =
     (if ClientOptions.timeout opts = None \<or> ClientOptions.timeout opts = Some (Num 0)
         \<or> ClientOptions.timeout opts = Some NaN
      then Num 10000 else the (ClientOptions.timeout opts))
   \<and> userAgent (new_MotoGPClient (Some opts)) =
     (if ClientOptions.userAgent opts = None \<or> ClientOptions.userAgent opts = Some []
      then defaultUserAgent else the (ClientOptions.userAgent opts))
   \<and> timeout (new_MotoGPClient (Some (opts\<lparr>ClientOptions.timeout := Some (Num 0)\<rparr>))) = Num 10000
   \<and> baseURL (new_MotoGPClient (Some (opts\<lparr>ClientOptions.baseURL := Some []\<rparr>))) =
       ''https://api.motogp.pulselive.com/motogp/v1/''
   \<and> userAgent (new_MotoGPClient (Some (opts\<lparr>ClientOptions.userAgent := Some []\<rparr>))) =
       ''Mozilla/5.0 (Windows NT 10.0; Win64; x64) AppleWebKit/537.36 (KHTML, like Gecko) Chrome/125.0.0.0 Safari/537.36''
   \<and> new_MotoGPClient None =
       \<lparr>baseURL = defaultBaseURL, timeout = Num 10000, userAgent = defaultUserAgent\<rparr>"
  by (simp add: new_MotoGPClient_def or_string_def or_number_def emptyOptions_def
      defaultBaseURL_def defaultUserAgent_def split: option.splits number.splits)

theorem new_MotoGPClient_falsy_defaults_witness:
  "new_MotoGPClient
     (Some \<lparr>ClientOptions.baseURL = Some [], ClientOptions.timeout = Some (Num 0),
            ClientOptions.userAgent = Some ''MyApp/1.0.0''\<rparr>)
   = \<lparr>baseURL = defaultBaseURL, timeout = Num 10000, userAgent = ''MyApp/1.0.0''\<rparr>"
proof -
  let ?opts = "\<lparr>ClientOptions.baseURL = Some [], ClientOptions.timeout = Some (Num 0),
            ClientOptions.userAgent = Some ''MyApp/1.0.0''\<rparr>"
  have "baseURL (new_MotoGPClient (Some ?opts)) = defaultBaseURL
      \<and> timeout (new_MotoGPClient (Some ?opts)) = Num 10000
      \<and> userAgent (new_MotoGPClient (Some ?opts)) = ''MyApp/1.0.0''"
    using new_MotoGPClient_falsy_defaults [of ?opts] by simp
  then show ?thesis by (cases "new_MotoGPClient (Some ?opts)") simp
qed

lemma makeRequest_resolved:
  assumes "new_URL pf endpoint (baseURL this) = Inr url0"
  shows "makeRequest pf this endpoint params =
           ([ConsoleLog (''Making request to: '' @ url_toString pf (appendSearchParams url0 params)),
             Request (url_toString pf (appendSearchParams url0 params)) (requestOptions this)],
            case (case request pf (url_toString pf (appendSearchParams url0 params))
                         (requestOptions this) of
                    Inl e \<Rightarrow> Inl e
                  | Inr response \<Rightarrow> handleResponse response) of
              Inl error \<Rightarrow> Inl (catchBlock error)
            | Inr data \<Rightarrow> Inr data)"
  using assms by (simp add: makeRequest_def Let_def)

lemma catchBlock_APIError: "catchBlock (APIError m st) = APIError m st"
  by (simp add: catchBlock_def APIError_def)

lemma message_of_catchBlock:
  "message_of (catchBlock e) =
     Some (case message_of e of Some m \<Rightarrow> m | None \<Rightarrow> ''Unknown error occurred'')"
  by (cases e) (auto simp: catchBlock_def APIError_def split: option.splits)

lemma status_of_catchBlock:
  "status_of (catchBlock e) = (if message_of e = None then None else status_of e)"
  by (cases e) (auto simp: catchBlock_def APIError_def)

text \<open>
  Claim C3. When the URL resolves and the transport answers with a response, a status code
  other than 200 makes \<open>makeRequest\<close> fail with an error that carries that status code and
  the message \<open>HTTP <status>: Not Found\<close> for 404, \<open>HTTP <status>: Request Failed\<close> for every
  other status. A response with status 200 never produces this error: the call then succeeds
  with the decoded body, or fails with what decoding the body throws, and if that carries no
  status code then neither does the failure of the call.
\<close>

theorem makeRequest_http_status:
  "(new_URL pf endpoint (baseURL this) = Inr url0
      \<and> request pf (url_toString pf (appendSearchParams url0 params)) (requestOptions this)
          = Inr response
    \<longrightarrow> (statusCode response \<noteq> 200 \<longrightarrow>
           snd (makeRequest pf this endpoint params) =
             Inl (APIError
                    (''HTTP '' @ toString (statusCode response) @ '': ''
                       @ (if statusCode response = 404 then ''Not Found'' else ''Request Failed''))
                    (Some (statusCode response))))
        \<and> (statusCode response = 200 \<longrightarrow>
             snd (makeRequest pf this endpoint params) =
               (case body_json response of Inl e \<Rightarrow> Inl (catchBlock e) | Inr data \<Rightarrow> Inr data))
        \<and> (statusCode response = 200 \<and> (\<forall>e. body_json response = Inl e \<longrightarrow> status_of e = None)
           \<longrightarrow> (\<forall>m st. snd (makeRequest pf this endpoint params) \<noteq> Inl (APIError m (Some st)))))
   \<and> message_of (APIError m st) = Some m \<and> status_of (APIError m st) = st
   \<and> ''HTTP '' @ toString 404 @ '': '' @ ''Not Found'' = ''HTTP 404: Not Found''
   \<and> ''HTTP '' @ toString 500 @ '': '' @ ''Request Failed'' = ''HTTP 500: Request Failed''"
proof -
  have gen: "(statusCode response \<noteq> 200 \<longrightarrow>
           snd (makeRequest pf this endpoint params) =
             Inl (APIError
                    (''HTTP '' @ toString (statusCode response) @ '': ''
                       @ (if statusCode response = 404 then ''Not Found'' else ''Request Failed''))
                    (Some (statusCode response))))
        \<and> (statusCode response = 200 \<longrightarrow>
             snd (makeRequest pf this endpoint params) =
               (case body_json response of Inl e \<Rightarrow> Inl (catchBlock e) | Inr data \<Rightarrow> Inr data))
        \<and> (statusCode response = 200 \<and> (\<forall>e. body_json response = Inl e \<longrightarrow> status_of e = None)
           \<longrightarrow> (\<forall>m st. snd (makeRequest pf this endpoint params) \<noteq> Inl (APIError m (Some st))))"
    if u: "new_URL pf endpoint (baseURL this) = Inr url0"
      and r: "request pf (url_toString pf (appendSearchParams url0 params)) (requestOptions this)
          = Inr response"
  proof -
    have res: "snd (makeRequest pf this endpoint params) =
        (case handleResponse response of Inl error \<Rightarrow> Inl (catchBlock error) | Inr data \<Rightarrow> Inr data)"
      unfolding makeRequest_resolved [OF u] r by simp
    have never: "snd (makeRequest pf this endpoint params) \<noteq> Inl (APIError m st)" 
      if ok: "statusCode response = 200"
        and nost: "\<forall>e. body_json response = Inl e \<longrightarrow> status_of e = None"
        and st: "st \<noteq> None" for m st
    proof (cases "body_json response")
      case (Inl e)
      with nost have "status_of e = None" by simp
      then have "status_of (catchBlock e) = None" by (simp add: status_of_catchBlock)
      then have "catchBlock e \<noteq> APIError m st" using st by (auto simp: APIError_def)
      with Inl ok show ?thesis by (simp add: res handleResponse_def)
    next
      case (Inr d)
      with ok show ?thesis by (simp add: res handleResponse_def)
    qed
    show ?thesis
      using never by (auto simp: res handleResponse_def catchBlock_APIError)
  qed
  have a: "message_of (APIError m st) = Some m \<and> status_of (APIError m st) = st"
    by (simp add: APIError_def)
  have e1: "''HTTP '' @ toString 404 @ '': '' @ ''Not Found'' = ''HTTP 404: Not Found''"
    by code_simp
  have e2: "''HTTP '' @ toString 500 @ '': '' @ ''Request Failed'' = ''HTTP 500: Request Failed''"
    by code_simp
  from gen a e1 e2 show ?thesis by blast
qed

theorem makeRequest_http_status_witness:
  "snd (makeRequest
          \<lparr>new_URL = (\<lambda>endpoint base. Inr \<lparr>address = base @ endpoint, searchParams = []\<rparr>),
           url_toString = address,
           request = (\<lambda>href opts. Inr \<lparr>statusCode = 404, body_json = Inr ()\<rparr>)\<rparr>
          (new_MotoGPClient None) ''results/seasons'' None)
     = Inl (APIError ''HTTP 404: Not Found'' (Some 404))"
proof -
  let ?r = "\<lparr>statusCode = 404, body_json = Inr ()\<rparr>"
  let ?pf = "\<lparr>new_URL = (\<lambda>endpoint base. Inr \<lparr>address = base @ endpoint, searchParams = []\<rparr>),
           url_toString = address,
           request = (\<lambda>href opts. Inr ?r)\<rparr>"
  let ?u = "\<lparr>address = baseURL (new_MotoGPClient None) @ ''results/seasons'', searchParams = []\<rparr>"
  have h1: "new_URL ?pf ''results/seasons'' (baseURL (new_MotoGPClient None)) = Inr ?u" by simp
  have h2: "request ?pf (url_toString ?pf (appendSearchParams ?u None))
              (requestOptions (new_MotoGPClient None)) = Inr ?r" by simp
  have h3: "statusCode ?r \<noteq> 200" by simp
  have "snd (makeRequest ?pf (new_MotoGPClient None) ''results/seasons'' None) =
             Inl (APIError
                    (''HTTP '' @ toString (statusCode ?r) @ '': ''
                       @ (if statusCode ?r = 404 then ''Not Found'' else ''Request Failed''))
                    (Some (statusCode ?r)))"
    using makeRequest_http_status [of ?pf "''results/seasons''" "new_MotoGPClient None" ?u None ?r]
      h1 h2 h3 by blast
  moreover have "''HTTP '' @ toString (404::int) @ '': '' @ ''Not Found'' = ''HTTP 404: Not Found''"
    by code_simp
  ultimately show ?thesis by simp
qed


text \<open>
  Claim C4. A transport-level failure is a request that ends without an HTTP status: the
  transport rejects, or the response has status 200 and decoding its body throws, and what is
  thrown has no status code. \<open>makeRequest\<close> then fails with an error that has no status code
  and whose message is the message of what was thrown, or \<open>Unknown error occurred\<close> when that
  has no message. Exactly one request was issued: there is no retry.
\<close>

theorem makeRequest_transport_failure:
  "(new_URL pf endpoint (baseURL this) = Inr url0
      \<and> (request pf (url_toString pf (appendSearchParams url0 params)) (requestOptions this) = Inl e
         \<or> (request pf (url_toString pf (appendSearchParams url0 params)) (requestOptions this)
               = Inr response
             \<and> statusCode response = 200 \<and> body_json response = Inl e))
      \<and> status_of e = None
    \<longrightarrow> makeRequest pf this endpoint params =
          ([ConsoleLog (''Making request to: '' @ url_toString pf (appendSearchParams url0 params)),
            Request (url_toString pf (appendSearchParams url0 params)) (requestOptions this)],
           Inl (catchBlock e))
        \<and> status_of (catchBlock e) = None
        \<and> message_of (catchBlock e) =
            Some (case message_of e of Some m \<Rightarrow> m | None \<Rightarrow> ''Unknown error occurred''))
   \<and> catchBlock (ErrorInstance m None) = ErrorInstance m None
   \<and> catchBlock NonObject = APIError ''Unknown error occurred'' None
   \<and> catchBlock (OtherObject None st) = APIError ''Unknown error occurred'' None"
proof -
  have gen: "makeRequest pf this endpoint params =
          ([ConsoleLog (''Making request to: '' @ url_toString pf (appendSearchParams url0 params)),
            Request (url_toString pf (appendSearchParams url0 params)) (requestOptions this)],
           Inl (catchBlock e))
        \<and> status_of (catchBlock e) = None
        \<and> message_of (catchBlock e) =
            Some (case message_of e of Some m \<Rightarrow> m | None \<Rightarrow> ''Unknown error occurred'')"
    if u: "new_URL pf endpoint (baseURL this) = Inr url0"
      and f: "request pf (url_toString pf (appendSearchParams url0 params)) (requestOptions this) = Inl e
         \<or> (request pf (url_toString pf (appendSearchParams url0 params)) (requestOptions this)
               = Inr response
             \<and> statusCode response = 200 \<and> body_json response = Inl e)"
      and s: "status_of e = None"
  proof -
    from f have "makeRequest pf this endpoint params =
          ([ConsoleLog (''Making request to: '' @ url_toString pf (appendSearchParams url0 params)),
            Request (url_toString pf (appendSearchParams url0 params)) (requestOptions this)],
           Inl (catchBlock e))"
      unfolding makeRequest_resolved [OF u] by (auto simp: handleResponse_def)
    moreover have "status_of (catchBlock e) = None"
      using s by (simp add: status_of_catchBlock)
    ultimately show ?thesis by (simp add: message_of_catchBlock)
  qed
  have c: "catchBlock (ErrorInstance m None) = ErrorInstance m None
   \<and> catchBlock NonObject = APIError ''Unknown error occurred'' None
   \<and> catchBlock (OtherObject None st) = APIError ''Unknown error occurred'' None"
    by (simp add: catchBlock_def)
  from gen c show ?thesis by blast
qed

theorem makeRequest_transport_failure_witness:
  "makeRequest
      \<lparr>new_URL = (\<lambda>endpoint base. Inr \<lparr>address = base @ endpoint, searchParams = []\<rparr>),
       url_toString = address,
       request = (\<lambda>href opts. Inl (ErrorInstance ''getaddrinfo ENOTFOUND'' None)
                    :: thrown + unit response)\<rparr>
      (new_MotoGPClient None) ''results/seasons'' None
     = ([ConsoleLog ''Making request to: https://api.motogp.pulselive.com/motogp/v1/results/seasons'',
         Request ''https://api.motogp.pulselive.com/motogp/v1/results/seasons''
           (requestOptions (new_MotoGPClient None))],
        Inl (ErrorInstance ''getaddrinfo ENOTFOUND'' None))"
proof -
  let ?e = "ErrorInstance ''getaddrinfo ENOTFOUND'' None"
  let ?pf = "\<lparr>new_URL = (\<lambda>endpoint base. Inr \<lparr>address = base @ endpoint, searchParams = []\<rparr>),
       url_toString = address,
       request = (\<lambda>href opts. Inl ?e :: thrown + unit response)\<rparr>"
  let ?u = "\<lparr>address = baseURL (new_MotoGPClient None) @ ''results/seasons'', searchParams = []\<rparr>"
  have h1: "new_URL ?pf ''results/seasons'' (baseURL (new_MotoGPClient None)) = Inr ?u" by simp
  have h2: "request ?pf (url_toString ?pf (appendSearchParams ?u None))
              (requestOptions (new_MotoGPClient None)) = Inl ?e" by simp
  have h3: "status_of ?e = None" by simp
  have "makeRequest ?pf (new_MotoGPClient None) ''results/seasons'' None =
          ([ConsoleLog (''Making request to: '' @ url_toString ?pf (appendSearchParams ?u None)),
            Request (url_toString ?pf (appendSearchParams ?u None))
              (requestOptions (new_MotoGPClient None))],
           Inl (catchBlock ?e))"
    using makeRequest_transport_failure
      [of ?pf "''results/seasons''" "new_MotoGPClient None" ?u None ?e undefined]
      h1 h2 h3 by blast
  then show ?thesis
    by (simp add: appendSearchParams_def catchBlock_def new_MotoGPClient_def emptyOptions_def
        or_string_def defaultBaseURL_def)
qed

lemma filter_searchParams_set:
  "filter (\<lambda>q. fst q = k) (searchParams_set name v ps) =
     (if k = name then [(name, v)] else filter (\<lambda>q. fst q = k) ps)"
proof (induction ps)
  case Nil
  show ?case by auto
next
  case (Cons p ps)
  show ?case
  proof (cases "fst p = name")
    case True
    have "filter (\<lambda>q. fst q = k) (filter (\<lambda>q. fst q \<noteq> name) ps) =
        (if k = name then [] else filter (\<lambda>q. fst q = k) ps)"
      by (induction ps) auto
    with True show ?thesis by auto
  next
    case False
    with Cons.IH show ?thesis by auto
  qed
qed

lemma searchParams_set_fresh:
  "name \<notin> fst ` set ps \<Longrightarrow> searchParams_set name v ps = ps @ [(name, v)]"
  by (induction ps) auto

lemma address_foldl_setSearchParam: "address (foldl setSearchParam url entries) = address url"
  by (induction entries arbitrary: url) (auto simp: setSearchParam_def)

lemma filter_foldl_setSearchParam:
  assumes "distinct (map fst entries)"
  shows "filter (\<lambda>q. fst q = k) (searchParams (foldl setSearchParam url entries)) =
           (case map_of entries k of
              Some v \<Rightarrow> if v = Undefined \<or> v = Null
                        then filter (\<lambda>q. fst q = k) (searchParams url) else [(k, String v)]
            | None \<Rightarrow> filter (\<lambda>q. fst q = k) (searchParams url))"
  using assms
proof (induction entries arbitrary: url)
  case Nil
  show ?case by simp
next
  case (Cons entry entries)
  obtain key v where entry: "entry = (key, v)" by (cases entry)
  from Cons.prems entry have d: "distinct (map fst entries)" and fresh: "key \<notin> fst ` set entries"
    by auto
  from fresh have none: "map_of entries key = None" by (simp add: map_of_eq_None_iff)
  have step: "filter (\<lambda>q. fst q = k) (searchParams (setSearchParam url (key, v))) =
      (if k = key \<and> v \<noteq> Undefined \<and> v \<noteq> Null then [(key, String v)]
       else filter (\<lambda>q. fst q = k) (searchParams url))"
    by (simp add: setSearchParam_def filter_searchParams_set)
  have "filter (\<lambda>q. fst q = k)
          (searchParams (foldl setSearchParam (setSearchParam url (key, v)) entries)) =
        (case map_of entries k of
           Some v' \<Rightarrow> if v' = Undefined \<or> v' = Null
                      then filter (\<lambda>q. fst q = k) (searchParams (setSearchParam url (key, v)))
                      else [(k, String v')]
         | None \<Rightarrow> filter (\<lambda>q. fst q = k) (searchParams (setSearchParam url (key, v))))"
    by (rule Cons.IH [OF d])
  then show ?case
    unfolding entry step using none by (auto split: option.splits)
qed

lemma searchParams_foldl_fresh:
  assumes "distinct (map fst entries)" and "fst ` set (searchParams url) \<inter> fst ` set entries = {}"
  shows "searchParams (foldl setSearchParam url entries) =
           searchParams url
             @ map (\<lambda>(k, v). (k, String v)) (filter (\<lambda>(k, v). v \<noteq> Undefined \<and> v \<noteq> Null) entries)"
  using assms
proof (induction entries arbitrary: url)
  case Nil
  show ?case by simp
next
  case (Cons entry entries)
  obtain key v where entry: "entry = (key, v)" by (cases entry)
  from Cons.prems entry have d: "distinct (map fst entries)"
    and fresh: "key \<notin> fst ` set entries" and new: "key \<notin> fst ` set (searchParams url)"
    and disj: "fst ` set (searchParams url) \<inter> fst ` set entries = {}"
    by auto
  show ?case
  proof (cases "v \<noteq> Undefined \<and> v \<noteq> Null")
    case True
    then have sp: "searchParams (setSearchParam url (key, v)) = searchParams url @ [(key, String v)]"
      using new by (simp add: setSearchParam_def searchParams_set_fresh)
    have "fst ` set (searchParams (setSearchParam url (key, v))) \<inter> fst ` set entries = {}"
      using disj fresh by (auto simp: sp)
    from Cons.IH [OF d this] True show ?thesis unfolding entry by (simp add: sp)
  next
    case False
    then have sp: "setSearchParam url (key, v) = url" by (auto simp: setSearchParam_def)
    from Cons.IH [OF d disj] False show ?thesis unfolding entry by (auto simp: sp)
  qed
qed

text \<open>
  Claim C5. The request goes to the resolved URL with the query parameters written into it.
  Without a parameter object the URL is left as it is. With one (its keys are distinct, as
  those of any object are), every key whose value is neither \<open>undefined\<close> nor \<open>null\<close> ends up
  in the query exactly once, with \<open>String(value)\<close> as its value; a key whose value is
  \<open>undefined\<close> or \<open>null\<close> is not written, and no other key is touched. When the resolved
  endpoint has no query of its own, the query is exactly the list of the remaining entries,
  in order.
\<close>

theorem makeRequest_query_parameters:
  "(new_URL pf endpoint (baseURL this) = Inr url0 \<longrightarrow>
      fst (makeRequest pf this endpoint params) =
        [ConsoleLog (''Making request to: '' @ url_toString pf (appendSearchParams url0 params)),
         Request (url_toString pf (appendSearchParams url0 params)) (requestOptions this)])
   \<and> appendSearchParams url0 None = url0
   \<and> address (appendSearchParams url0 params) = address url0
   \<and> (distinct (map fst entries) \<longrightarrow>
        (\<forall>k. filter (\<lambda>q. fst q = k) (searchParams (appendSearchParams url0 (Some entries))) =
           (case map_of entries k of
              Some v \<Rightarrow> if v = Undefined \<or> v = Null
                        then filter (\<lambda>q. fst q = k) (searchParams url0) else [(k, String v)]
            | None \<Rightarrow> filter (\<lambda>q. fst q = k) (searchParams url0))))
   \<and> (distinct (map fst entries) \<and> searchParams url0 = [] \<longrightarrow>
        searchParams (appendSearchParams url0 (Some entries)) =
          map (\<lambda>(k, v). (k, String v)) (filter (\<lambda>(k, v). v \<noteq> Undefined \<and> v \<noteq> Null) entries))"
proof -
  have a: "new_URL pf endpoint (baseURL this) = Inr url0 \<Longrightarrow>
      fst (makeRequest pf this endpoint params) =
        [ConsoleLog (''Making request to: '' @ url_toString pf (appendSearchParams url0 params)),
         Request (url_toString pf (appendSearchParams url0 params)) (requestOptions this)]"
    by (simp add: makeRequest_resolved)
  have b: "appendSearchParams url0 None = url0" by (simp add: appendSearchParams_def)
  have c: "address (appendSearchParams url0 params) = address url0"
    by (cases params) (simp_all add: appendSearchParams_def address_foldl_setSearchParam)
  have d: "distinct (map fst entries) \<Longrightarrow>
        filter (\<lambda>q. fst q = k) (searchParams (appendSearchParams url0 (Some entries))) =
           (case map_of entries k of
              Some v \<Rightarrow> if v = Undefined \<or> v = Null
                        then filter (\<lambda>q. fst q = k) (searchParams url0) else [(k, String v)]
            | None \<Rightarrow> filter (\<lambda>q. fst q = k) (searchParams url0))" for k
    by (simp add: appendSearchParams_def filter_foldl_setSearchParam)
  have e: "distinct (map fst entries) \<and> searchParams url0 = [] \<Longrightarrow>
        searchParams (appendSearchParams url0 (Some entries)) =
          map (\<lambda>(k, v). (k, String v)) (filter (\<lambda>(k, v). v \<noteq> Undefined \<and> v \<noteq> Null) entries)"
    using searchParams_foldl_fresh [of entries url0] by (simp add: appendSearchParams_def)
  from a b c d e show ?thesis by blast
qed

theorem makeRequest_query_parameters_witness:
  "distinct (map fst [(''seasonYear'', Number (Num 2024)), (''test'', Undefined),
                      (''categoryUuid'', Null), (''live'', Boolean False), (''q'', Str [])])
   \<and> searchParams (appendSearchParams \<lparr>address = ''https://host/teams'', searchParams = []\<rparr>
        (Some [(''seasonYear'', Number (Num 2024)), (''test'', Undefined),
               (''categoryUuid'', Null), (''live'', Boolean False), (''q'', Str [])]))
     = [(''seasonYear'', ''2024''), (''live'', ''false''), (''q'', [])]"
proof -
  let ?entries = "[(''seasonYear'', Number (Num 2024)), (''test'', Undefined),
                   (''categoryUuid'', Null), (''live'', Boolean False), (''q'', Str [])]"
  let ?u = "\<lparr>address = ''https://host/teams'', searchParams = []\<rparr>"
  have h1: "distinct (map fst ?entries)" by simp
  have h2: "searchParams ?u = []" by simp
  have "searchParams (appendSearchParams ?u (Some ?entries)) =
          map (\<lambda>(k, v). (k, String v)) (filter (\<lambda>(k, v). v \<noteq> Undefined \<and> v \<noteq> Null) ?entries)"
    using makeRequest_query_parameters [where ?url0.0 = ?u and entries = ?entries] h1 h2 by blast
  moreover have "toString 2024 = ''2024''" by code_simp
  ultimately show ?thesis using h1 by simp
qed

end
